theory Spec2Isabelle
  imports Main
begin

section \<open>JavaScript values and objects\<close>

text \<open>
  The values that flow through the Recorder and the Archivist. A date is kept as its
  textual form. An object is a finite map from property names to values; reading a
  property that the object does not have gives \<open>undefined\<close>.
\<close>

datatype jsval =
    JUndefined
  | JNull
  | JBool bool
  | JNum nat
  | JStr string
  | JDate string
  | JArr "jsval list"

text \<open>JavaScript truthiness, as tested by \<^verbatim>\<open>!x\<close> and \<^verbatim>\<open>x ? a : b\<close>.\<close>

fun truthy :: "jsval \<Rightarrow> bool" where
  "truthy JUndefined = False"
| "truthy JNull = False"
| "truthy (JBool b) = b"
| "truthy (JNum n) = (n \<noteq> 0)"
| "truthy (JStr s) = (s \<noteq> [])"
| "truthy (JDate d) = True"
| "truthy (JArr xs) = True"

type_synonym jsobj = "string \<Rightarrow> jsval option"

definition getProp :: "jsobj \<Rightarrow> string \<Rightarrow> jsval" where
  "getProp obj k = (case obj k of None \<Rightarrow> JUndefined | Some v \<Rightarrow> v)"

text \<open>An object literal \<^verbatim>\<open>{ k1: v1, k2: v2 }\<close>; a later key wins, as in JavaScript.\<close>

definition objectLiteral :: "(string \<times> jsval) list \<Rightarrow> jsobj" where
  "objectLiteral kvs = map_of (rev kvs)"

text \<open>Object spread \<^verbatim>\<open>{ ...a, ...b }\<close>: the own properties of \<open>b\<close> override those of \<open>a\<close>.\<close>

definition spread :: "jsobj \<Rightarrow> jsobj \<Rightarrow> jsobj" where
  "spread a b = a ++ b"

subsection \<open>Strings\<close>

text \<open>\<^verbatim>\<open>Array.prototype.join\<close> on an array of strings.\<close>

fun joinWith :: "string \<Rightarrow> string list \<Rightarrow> string" where
  "joinWith sep [] = []"
| "joinWith sep [x] = x"
| "joinWith sep (x # y # ys) = x @ sep @ joinWith sep (y # ys)"

text \<open>Decimal rendering of a non-negative integer (\<^verbatim>\<open>String(n)\<close>).\<close>

definition digitChar :: "nat \<Rightarrow> char" where
  "digitChar d = ''0123456789'' ! d"

fun showNat :: "nat \<Rightarrow> string" where
  "showNat n = (if n < 10 then [digitChar n] else showNat (n div 10) @ [digitChar (n mod 10)])"

text \<open>
  String conversion of a value inside a template literal. An array joins its elements
  with a comma, rendering \<open>undefined\<close> and \<open>null\<close> elements as the empty string.
\<close>

fun toStringJS :: "jsval \<Rightarrow> string" where
  "toStringJS JUndefined = ''undefined''"
| "toStringJS JNull = ''null''"
| "toStringJS (JBool b) = (if b then ''true'' else ''false'')"
| "toStringJS (JNum n) = showNat n"
| "toStringJS (JStr s) = s"
| "toStringJS (JDate d) = d"
| "toStringJS (JArr xs) =
     joinWith '','' (map (\<lambda>x. case x of JUndefined \<Rightarrow> [] | JNull \<Rightarrow> [] | _ \<Rightarrow> toStringJS x) xs)"

section \<open>Errors\<close>

text \<open>
  Every \<^verbatim>\<open>throw\<close> of the sources is a value: a plain \<^verbatim>\<open>Error\<close> with its
  message, the \<^verbatim>\<open>TypeError\<close> of a library call on a non-string, the fetcher's
  \<^verbatim>\<open>FetchDocumentError\<close>, the aggregated \<^verbatim>\<open>InaccessibleContentError\<close>
  with the list of messages it is built from, and any other thrown value.
\<close>

datatype error =
    Error string
  | TypeError string
  | FetchDocumentError string
  | InaccessibleContentError "string list"
  | OtherError string

section \<open>Recorder (src/archivist/recorder/index.js)\<close>

text \<open>
  The Recorder holds two repositories. Of a repository only \<^verbatim>\<open>save\<close> is used by
  the operations below, so each repository is represented by its \<^verbatim>\<open>save\<close> method,
  a function from the Record handed over to whatever the repository answers.
\<close>

record 'r Recorder =
  versionsRepository_save :: "jsobj \<Rightarrow> 'r"
  snapshotsRepository_save :: "jsobj \<Rightarrow> 'r"

text \<open>
  Modelled from the spec: the \<^verbatim>\<open>Record\<close> class (repositories/record.js) is not among
  the sources. A Record is the plain value holding the fields it is constructed from.
\<close>

definition newRecord :: "(string \<times> jsval) list \<Rightarrow> jsobj" where
  "newRecord kvs = objectLiteral kvs"

definition recordSnapshot :: "'r Recorder \<Rightarrow> jsobj \<Rightarrow> error + 'r" where
  "recordSnapshot this params =
    (let serviceId = getProp params ''serviceId'';
         documentType = getProp params ''documentType'';
         fetchDate = getProp params ''fetchDate'';
         mimeType = getProp params ''mimeType'';
         content = getProp params ''content''
     in if \<not> truthy serviceId then Inl (Error ''A service ID is required'')
        else if \<not> truthy documentType then Inl (Error ''A document type is required'')
        else if \<not> truthy fetchDate then
          Inl (Error ''The fetch date of the snapshot is required to ensure data consistency'')
        else if \<not> truthy content then Inl (Error ''A document content is required'')
        else if \<not> truthy mimeType then
          Inl (Error ''A document mime type is required to ensure data consistency'')
        else Inr (snapshotsRepository_save this (newRecord
               [(''serviceId'', serviceId), (''documentType'', documentType),
                (''fetchDate'', fetchDate), (''mimeType'', mimeType), (''content'', content)])))"

definition recordVersion :: "'r Recorder \<Rightarrow> jsobj \<Rightarrow> error + 'r" where
  "recordVersion this params =
    (let serviceId = getProp params ''serviceId'';
         documentType = getProp params ''documentType'';
         snapshotId = getProp params ''snapshotId'';
         fetchDate = getProp params ''fetchDate'';
         mimeType = getProp params ''mimeType'';
         content = getProp params ''content'';
         isRefilter = getProp params ''isRefilter''
     in if \<not> truthy serviceId then Inl (Error ''A service ID is required'')
        else if \<not> truthy documentType then Inl (Error ''A document type is required'')
        else if \<not> truthy snapshotId then
          Inl (Error (''A snapshot ID is required to ensure data consistency for ''
                      @ toStringJS serviceId @ [CHR 0x27] @ ''s '' @ toStringJS documentType))
        else if \<not> truthy fetchDate then
          Inl (Error ''The fetch date of the snapshot is required to ensure data consistency'')
        else if \<not> truthy content then Inl (Error ''A document content is required'')
        else if \<not> truthy mimeType then
          Inl (Error ''A document mime type is required to ensure data consistency'')
        else Inr (versionsRepository_save this (newRecord
               [(''serviceId'', serviceId), (''documentType'', documentType),
                (''snapshotId'', snapshotId), (''fetchDate'', fetchDate),
                (''mimeType'', mimeType), (''content'', content),
                (''isRefilter'', isRefilter)])))"

definition recordRefilter :: "'r Recorder \<Rightarrow> jsobj \<Rightarrow> error + 'r" where
  "recordRefilter this params =
     recordVersion this (spread (objectLiteral [(''isRefilter'', JBool True)]) params)"

text \<open>
  A Recorder whose repositories answer with the very Record they were handed: what a
  call returns on the right is then exactly what it asked a repository to persist.
\<close>

definition echoRecorder :: "jsobj Recorder" where
  "echoRecorder = \<lparr>versionsRepository_save = (\<lambda>r. r),
                   snapshotsRepository_save = (\<lambda>r. r)\<rparr>"

subsection \<open>Sample parameters\<close>

definition completeParams :: jsobj where
  "completeParams = objectLiteral
     [(''serviceId'', JStr ''service''), (''documentType'', JStr ''Terms of Service''),
      (''snapshotId'', JStr ''abc12''),
      (''fetchDate'', JDate ''2023-01-01T00:00:00.000Z''),
      (''mimeType'', JStr ''text/html''), (''content'', JStr ''<html></html>'')]"



text \<open>
  Parameters of a version whose lineage is the array \<^verbatim>\<open>snapshotIds\<close>, as the
  Archivist supplies it, with every other field the Recorder reads present.
\<close>

definition pipelineVersionParams :: jsobj where
  "pipelineVersionParams = objectLiteral
     [(''serviceId'', JStr ''service''), (''termsType'', JStr ''Terms of Service''),
      (''documentType'', JStr ''Terms of Service''),
      (''content'', JStr ''terms''),
      (''fetchDate'', JDate ''2023-01-01T00:00:00.000Z''),
      (''mimeType'', JStr ''text/markdown''),
      (''snapshotIds'', JArr [JStr ''abc12'', JStr ''de34f''])]"

definition notRefilterParams :: jsobj where
  "notRefilterParams = objectLiteral
     [(''serviceId'', JStr ''service''), (''documentType'', JStr ''Terms of Service''),
      (''snapshotId'', JStr ''abc12''), (''content'', JStr ''terms''),
      (''fetchDate'', JDate ''2023-01-01T00:00:00.000Z''),
      (''mimeType'', JStr ''text/markdown''),
      (''isRefilter'', JBool False)]"


section \<open>String operations of the JavaScript library\<close>

abbreviation NL :: string where
  "NL \<equiv> [CHR 0x0A]"

text \<open>\<^verbatim>\<open>s.startsWith(p)\<close>.\<close>

fun startsWith :: "string \<Rightarrow> string \<Rightarrow> bool" where
  "startsWith s [] = True"
| "startsWith [] (p # ps) = False"
| "startsWith (c # cs) (p # ps) = (c = p \<and> startsWith cs ps)"

definition endsWith :: "string \<Rightarrow> string \<Rightarrow> bool" where
  "endsWith s p = startsWith (rev s) (rev p)"

text \<open>
  The first occurrence of a pattern in a string: the text before it and the text after
  it, or \<open>None\<close> when the pattern does not occur.
\<close>

fun splitAtFirst :: "string \<Rightarrow> string \<Rightarrow> (string \<times> string) option" where
  "splitAtFirst pat [] = (if pat = [] then Some ([], []) else None)"
| "splitAtFirst pat (c # cs) =
     (if startsWith (c # cs) pat then Some ([], drop (length pat) (c # cs))
      else (case splitAtFirst pat cs of
              None \<Rightarrow> None
            | Some (front, rest) \<Rightarrow> Some (c # front, rest)))"

text \<open>\<^verbatim>\<open>s.includes(p)\<close>.\<close>

definition jsIncludes :: "string \<Rightarrow> string \<Rightarrow> bool" where
  "jsIncludes s pat = (splitAtFirst pat s \<noteq> None)"

text \<open>
  The replacement text of \<^verbatim>\<open>String.prototype.replace\<close> with a string pattern:
  \<^verbatim>\<open>$$\<close> is a dollar sign, \<^verbatim>\<open>$&\<close> the matched text, \<^verbatim>\<open>$`\<close> the text before
  the match and \<^verbatim>\<open>$'\<close> the text after it; every other character stands for itself.
\<close>

fun expandReplacement :: "string \<Rightarrow> string \<Rightarrow> string \<Rightarrow> string \<Rightarrow> string" where
  "expandReplacement matched front rest [] = []"
| "expandReplacement matched front rest [c] = [c]"
| "expandReplacement matched front rest (c # d # r) =
     (if c = CHR ''$'' \<and> d = CHR ''$'' then CHR ''$'' # expandReplacement matched front rest r
      else if c = CHR ''$'' \<and> d = CHR ''&'' then matched @ expandReplacement matched front rest r
      else if c = CHR ''$'' \<and> d = CHR 0x60 then front @ expandReplacement matched front rest r
      else if c = CHR ''$'' \<and> d = CHR 0x27 then rest @ expandReplacement matched front rest r
      else c # expandReplacement matched front rest (d # r))"

text \<open>\<^verbatim>\<open>s.replace(pat, replacement)\<close> with a string pattern: the first occurrence only.\<close>

definition jsReplace :: "string \<Rightarrow> string \<Rightarrow> string \<Rightarrow> string" where
  "jsReplace s pat replacement =
     (case splitAtFirst pat s of
        None \<Rightarrow> s
      | Some (front, rest) \<Rightarrow> front @ expandReplacement pat front rest replacement @ rest)"

text \<open>
  \<^verbatim>\<open>s.split(sep)\<close> for a non-empty separator: \<open>splitOn sep acc s\<close> scans \<open>s\<close> with the
  piece read so far in \<open>acc\<close> (reversed).
\<close>

fun splitOn :: "string \<Rightarrow> string \<Rightarrow> string \<Rightarrow> string list" where
  "splitOn sep acc [] = [rev acc]"
| "splitOn sep acc (c # cs) =
     (if startsWith (c # cs) sep then rev acc # splitOn sep [] (drop (length sep - 1) cs)
      else splitOn sep (c # acc) cs)"

definition jsSplit :: "string \<Rightarrow> string \<Rightarrow> string list" where
  "jsSplit s sep = splitOn sep [] s"

text \<open>\<^verbatim>\<open>toLowerCase\<close>, on the letters A to Z; every other character is left as it is.\<close>

definition upperCaseLetters :: string where
  "upperCaseLetters = ''ABCDEFGHIJKLMNOPQRSTUVWXYZ''"

definition lowerCaseLetters :: string where
  "lowerCaseLetters = ''abcdefghijklmnopqrstuvwxyz''"

definition toLowerChar :: "char \<Rightarrow> char" where
  "toLowerChar c =
     (case map_of (zip ''ABCDEFGHIJKLMNOPQRSTUVWXYZ'' ''abcdefghijklmnopqrstuvwxyz'') c of
        None \<Rightarrow> c
      | Some l \<Rightarrow> l)"

definition toLowerCase :: "string \<Rightarrow> string" where
  "toLowerCase s = map toLowerChar s"

subsection \<open>The regular expression \<^verbatim>\<open>/\b[0-9a-f]{5,40}\b/g\<close>\<close>

definition isHexChar :: "char \<Rightarrow> bool" where
  "isHexChar c = (c \<in> set ''0123456789abcdef'')"

text \<open>The word characters of \<^verbatim>\<open>\b\<close>: letters, digits and the underscore.\<close>

definition isWordChar :: "char \<Rightarrow> bool" where
  "isWordChar c =
     (c \<in> set ''0123456789abcdefghijklmnopqrstuvwxyzABCDEFGHIJKLMNOPQRSTUVWXYZ_'')"

text \<open>
  An attempt to match \<^verbatim>\<open>[0-9a-f]{5,40}\b\<close> at the start of \<open>s\<close>: the quantifier is
  greedy, so the lengths are tried from 40 down to 5, and a length \<open>n\<close> succeeds when
  the first \<open>n\<close> characters are hexadecimal digits and a word boundary follows them
  (the end of the text or a character that is not a word character, the last character
  matched being one).
\<close>

definition matchTokenAt :: "string \<Rightarrow> nat option" where
  "matchTokenAt s =
     find (\<lambda>n. n \<le> length s \<and> list_all isHexChar (take n s)
                \<and> (case drop n s of [] \<Rightarrow> True | d # _ \<Rightarrow> \<not> isWordChar d))
          (rev [5..<41])"

text \<open>
  All matches, left to right (\<^verbatim>\<open>s.match(re)\<close> with the \<^verbatim>\<open>g\<close> flag; \<open>null\<close> is the
  empty list). \<open>prevWord\<close> tells whether the character before the current position
  is a word character: a match can start only at a word boundary, that is when it is
  not, the first matched character being a word character.
\<close>

fun matchAllFrom :: "bool \<Rightarrow> string \<Rightarrow> string list" where
  "matchAllFrom prevWord [] = []"
| "matchAllFrom prevWord (c # cs) =
     (case (if prevWord then None else matchTokenAt (c # cs)) of
        Some n \<Rightarrow> take n (c # cs) # matchAllFrom True (drop (n - 1) cs)
      | None \<Rightarrow> matchAllFrom (isWordChar c) cs)"

definition matchSnapshotIds :: "string \<Rightarrow> string list" where
  "matchSnapshotIds s = matchAllFrom False s"

section \<open>Node's \<^verbatim>\<open>path\<close> module (POSIX flavour)\<close>

text \<open>
  The last component of a path: trailing slashes are skipped, then the characters back
  to the previous slash are taken.
\<close>

definition lastSegment :: "string \<Rightarrow> string" where
  "lastSegment p =
     rev (takeWhile (\<lambda>c. c \<noteq> CHR ''/'') (dropWhile (\<lambda>c. c = CHR ''/'') (rev p)))"

definition trailingSlashes :: "string \<Rightarrow> string" where
  "trailingSlashes p = takeWhile (\<lambda>c. c = CHR ''/'') (rev p)"

definition dirname :: "string \<Rightarrow> string" where
  "dirname p =
     (if p = [] then ''.''
      else
        let hasRoot = (hd p = CHR ''/'');
            upToSlash = rev (dropWhile (\<lambda>c. c \<noteq> CHR ''/'')
                              (dropWhile (\<lambda>c. c = CHR ''/'') (rev (tl p))))
        in if upToSlash = [] then (if hasRoot then ''/'' else ''.'')
           else if hasRoot \<and> length upToSlash = 1 then ''//''
           else take (length upToSlash) p)"

definition extname :: "string \<Rightarrow> string" where
  "extname p =
     (let seg = lastSegment p;
          afterDot = rev (takeWhile (\<lambda>c. c \<noteq> CHR ''.'') (rev seg));
          beforeDot = take (length seg - length afterDot - 1) seg
      in if CHR ''.'' \<notin> set seg then []
         else if beforeDot = [] then []
         else if seg = ''..'' then []
         else CHR ''.'' # afterDot)"

definition basename :: "string \<Rightarrow> string \<Rightarrow> string" where
  "basename p suffix =
     (let seg = lastSegment p
      in if suffix \<noteq> [] \<and> length suffix \<le> length p then
           (if suffix = p then []
            else if length suffix < length seg \<and> endsWith seg suffix
              then take (length seg - length suffix) seg
            else if length seg < length suffix \<and> endsWith suffix seg
              then seg @ trailingSlashes p
            else seg)
         else seg)"

section \<open>The \<^verbatim>\<open>mime\<close> library\<close>

text \<open>
  The registry of the \<^verbatim>\<open>mime\<close> package: the preferred extension of each type and the
  type of each extension. The standard tables are a parameter of the development.
\<close>

record Mime =
  mime_extensions :: "string \<Rightarrow> string option"
  mime_types :: "string \<Rightarrow> string option"

text \<open>
  \<^verbatim>\<open>mime.define({ 'text/markdown': ['md'] }, true)\<close> (dataMapper.js, line 7): with
  the force flag the extension \<^verbatim>\<open>md\<close> is mapped to the type and becomes the type's
  preferred extension, whatever the tables held before.
\<close>

definition defineMarkdown :: "Mime \<Rightarrow> Mime" where
  "defineMarkdown m =
     m\<lparr>mime_types := (mime_types m)(''md'' \<mapsto> ''text/markdown''),
       mime_extensions := (mime_extensions m)(''text/markdown'' \<mapsto> ''md'')\<rparr>"

definition isSpace :: "char \<Rightarrow> bool" where
  "isSpace c = (c \<in> set [CHR 0x09, CHR 0x0A, CHR 0x0B, CHR 0x0C, CHR 0x0D, CHR 0x20])"

definition isLineTerminator :: "char \<Rightarrow> bool" where
  "isLineTerminator c = (c = CHR 0x0A \<or> c = CHR 0x0D)"

text \<open>
  \<^verbatim>\<open>mime.getExtension(type)\<close>: the type is cut at the first semicolon or white space
  (after leading white space) and looked up in lower case; \<open>undefined\<close> is first turned
  into the text \<^verbatim>\<open>undefined\<close>. An absent or empty result is \<open>null\<close>.
\<close>

definition getExtension :: "Mime \<Rightarrow> string option \<Rightarrow> string option" where
  "getExtension m type =
     (let text = (case type of None \<Rightarrow> ''undefined'' | Some t \<Rightarrow> t);
          bare = takeWhile (\<lambda>c. c \<noteq> CHR '';'' \<and> \<not> isSpace c) (dropWhile isSpace text)
      in if bare = [] then None
         else (case mime_extensions m (toLowerCase bare) of
                 None \<Rightarrow> None
               | Some e \<Rightarrow> if e = [] then None else Some e))"

text \<open>
  \<^verbatim>\<open>s.replace(/^.*[...]/, '')\<close>: within the first line of \<open>s\<close>, everything up to and
  including the last character of the class is removed; \<open>s\<close> is unchanged when its
  first line has no such character.
\<close>

definition stripThrough :: "(char \<Rightarrow> bool) \<Rightarrow> string \<Rightarrow> string" where
  "stripThrough P s =
     (let line = takeWhile (\<lambda>c. \<not> isLineTerminator c) s
      in if list_ex P line
         then rev (takeWhile (\<lambda>c. \<not> P c) (rev line)) @ drop (length line) s
         else s)"

text \<open>
  \<^verbatim>\<open>mime.getType(path)\<close>: the text after the last slash or backslash, in lower case,
  then its text after the last dot; the extension is looked up when the file name has
  at least one character before its last dot, or when the path has no directory part.
\<close>

definition getType :: "Mime \<Rightarrow> string \<Rightarrow> string option" where
  "getType m p =
     (let last = toLowerCase (stripThrough (\<lambda>c. c = CHR ''/'' \<or> c = CHR 0x5C) p);
          ext = toLowerCase (stripThrough (\<lambda>c. c = CHR ''.'') last);
          hasPath = (length last < length p);
          hasDot = (length ext + 1 < length last)
      in if hasDot \<or> \<not> hasPath
         then (case mime_types m ext of
                 None \<Rightarrow> None
               | Some t \<Rightarrow> if t = [] then None else Some t)
         else None)"

section \<open>The Record codec (src/archivist/recorder/repositories/git/dataMapper.js)\<close>

definition COMMIT_MESSAGE_PREFIX_startTracking :: string where
  "COMMIT_MESSAGE_PREFIX_startTracking = ''Initial record of''"

definition COMMIT_MESSAGE_PREFIX_extractOnly :: string where
  "COMMIT_MESSAGE_PREFIX_extractOnly = ''Apply technical or declaration upgrade on''"

definition COMMIT_MESSAGE_PREFIX_update :: string where
  "COMMIT_MESSAGE_PREFIX_update = ''Record new changes of''"

definition COMMIT_MESSAGE_PREFIX_deprecated_startTracking :: string where
  "COMMIT_MESSAGE_PREFIX_deprecated_startTracking = ''Start tracking''"

definition COMMIT_MESSAGE_PREFIX_deprecated_refilter :: string where
  "COMMIT_MESSAGE_PREFIX_deprecated_refilter = ''Refilter''"

definition COMMIT_MESSAGE_PREFIX_deprecated_update :: string where
  "COMMIT_MESSAGE_PREFIX_deprecated_update = ''Update''"

definition TERMS_TYPE_AND_DOCUMENT_ID_SEPARATOR :: string where
  "TERMS_TYPE_AND_DOCUMENT_ID_SEPARATOR = '' #''"

definition SNAPSHOT_ID_MARKER :: string where
  "SNAPSHOT_ID_MARKER = ''%SNAPSHOT_ID''"

definition SINGLE_SNAPSHOT_PREFIX :: string where
  "SINGLE_SNAPSHOT_PREFIX = ''This version was recorded after an extraction from the snapshot''"

definition MULTIPLE_SNAPSHOT_PREFIX :: string where
  "MULTIPLE_SNAPSHOT_PREFIX = ''This version was recorded after an extraction and an assembling from the following snapshots from %NUMBER source documents:''"

text \<open>
  An optional string used as a condition (\<^verbatim>\<open>documentId ? a : b\<close>): \<open>undefined\<close> and
  the empty string take the second branch.
\<close>

definition ifTruthy :: "string option \<Rightarrow> (string \<Rightarrow> 'a) \<Rightarrow> 'a \<Rightarrow> 'a" where
  "ifTruthy s a b = (case s of None \<Rightarrow> b | Some t \<Rightarrow> if t = [] then b else a t)"

definition generateFileName :: "string \<Rightarrow> string option \<Rightarrow> string \<Rightarrow> string" where
  "generateFileName termsType documentId extension =
     termsType
     @ ifTruthy documentId (\<lambda>d. TERMS_TYPE_AND_DOCUMENT_ID_SEPARATOR @ d) []
     @ ''.'' @ extension"

definition generateFilePath ::
    "Mime \<Rightarrow> string \<Rightarrow> string \<Rightarrow> string option \<Rightarrow> string option \<Rightarrow> string" where
  "generateFilePath mime serviceId termsType documentId mimeType =
     (let extension = (case getExtension mime mimeType of None \<Rightarrow> ''*'' | Some e \<Rightarrow> e)
      in serviceId @ ''/'' @ generateFileName termsType documentId extension)"

text \<open>
  A Record as the codec reads and builds it. An absent \<^verbatim>\<open>snapshotIds\<close> is the empty
  list (the destructuring default of \<^verbatim>\<open>toPersistence\<close>); a date is its text.
\<close>

record Record =
  recordId :: "string option"
  serviceId :: string
  termsType :: string
  documentId :: "string option"
  mimeType :: "string option"
  fetchDate :: string
  isFirstRecord :: bool
  isExtractOnly :: bool
  snapshotIds :: "string list"
  content :: "string option"

record Persistence =
  persistedMessage :: string
  persistedContent :: "string option"
  filePath :: string

record Commit =
  hash :: string
  date :: string
  message :: string
  body :: string
  files :: "string list"

definition subjectOf :: "Record \<Rightarrow> string" where
  "subjectOf r =
     (let prefix = (if isExtractOnly r then COMMIT_MESSAGE_PREFIX_extractOnly
                    else COMMIT_MESSAGE_PREFIX_update);
          prefix = (if isFirstRecord r then COMMIT_MESSAGE_PREFIX_startTracking else prefix)
      in prefix @ '' '' @ serviceId r @ '' '' @ termsType r)"

definition documentIdMessageOf :: "Record \<Rightarrow> string" where
  "documentIdMessageOf r =
     ifTruthy (documentId r) (\<lambda>d. ''Document ID '' @ d @ NL @ NL) []"

definition snapshotIdsMessageOf :: "Record \<Rightarrow> string \<Rightarrow> string option" where
  "snapshotIdsMessageOf r snapshotIdentiferTemplate =
     (if length (snapshotIds r) = 1 then
        Some (SINGLE_SNAPSHOT_PREFIX @ '' ''
              @ jsReplace snapshotIdentiferTemplate SNAPSHOT_ID_MARKER (snapshotIds r ! 0))
      else if length (snapshotIds r) > 1 then
        Some (jsReplace MULTIPLE_SNAPSHOT_PREFIX ''%NUMBER'' (showNat (length (snapshotIds r)))
              @ NL
              @ joinWith NL
                  (map (\<lambda>snapshotId. ''- '' @ jsReplace snapshotIdentiferTemplate
                                                  SNAPSHOT_ID_MARKER snapshotId)
                       (snapshotIds r)))
      else None)"

definition toPersistence :: "Mime \<Rightarrow> Record \<Rightarrow> string \<Rightarrow> Persistence" where
  "toPersistence mime r snapshotIdentiferTemplate =
     \<lparr>persistedMessage =
        subjectOf r @ NL @ NL @ documentIdMessageOf r @ NL @ NL
        @ (case snapshotIdsMessageOf r snapshotIdentiferTemplate of None \<Rightarrow> [] | Some m \<Rightarrow> m),
      persistedContent = content r,
      filePath = generateFilePath mime (serviceId r) (termsType r) (documentId r) (mimeType r)\<rparr>"

definition toDomain :: "Mime \<Rightarrow> Commit \<Rightarrow> error + Record" where
  "toDomain mime commit =
     (let modifiedFilesInCommit = files commit
      in if length modifiedFilesInCommit > 1 then
           Inl (Error (''Only one file should have been recorded in '' @ hash commit
                       @ '', but all these files were recorded: ''
                       @ joinWith '', '' modifiedFilesInCommit))
         else
           (case modifiedFilesInCommit of
              [] \<Rightarrow>
                Inl (TypeError (''The '' @ [CHR 0x22] @ ''path'' @ [CHR 0x22]
                              @ '' argument must be of type string. Received undefined''))
            | relativeFilePath # _ \<Rightarrow>
                let snapshotIdsMatch = matchSnapshotIds (body commit);
                    parts = jsSplit (basename relativeFilePath (extname relativeFilePath))
                              TERMS_TYPE_AND_DOCUMENT_ID_SEPARATOR
                in Inr \<lparr>recordId = Some (hash commit),
                        serviceId = dirname relativeFilePath,
                        termsType = (case parts of [] \<Rightarrow> [] | t # _ \<Rightarrow> t),
                        documentId = (case parts of t # d # _ \<Rightarrow> Some d | _ \<Rightarrow> None),
                        mimeType = getType mime relativeFilePath,
                        fetchDate = date commit,
                        isFirstRecord =
                          (startsWith (message commit) COMMIT_MESSAGE_PREFIX_startTracking
                           \<or> startsWith (message commit)
                                COMMIT_MESSAGE_PREFIX_deprecated_startTracking),
                        isExtractOnly =
                          (startsWith (message commit) COMMIT_MESSAGE_PREFIX_extractOnly
                           \<or> startsWith (message commit)
                                COMMIT_MESSAGE_PREFIX_deprecated_refilter),
                        snapshotIds = snapshotIdsMatch,
                        content = None\<rparr>))"

text \<open>
  Modelled from the spec: the git layer that stores a persistence triple as a commit is
  not among the sources. The commit touches the one file at \<open>filePath\<close>; git reports
  the text up to the first blank line of the commit message as the subject (the
  \<^verbatim>\<open>message\<close> of the commit) and the text after it as the \<^verbatim>\<open>body\<close>.
\<close>

definition commitOf :: "string \<Rightarrow> string \<Rightarrow> Persistence \<Rightarrow> Commit" where
  "commitOf commitHash commitDate p =
     (case splitAtFirst (NL @ NL) (persistedMessage p) of
        Some (subject, rest) \<Rightarrow>
          \<lparr>hash = commitHash, date = commitDate, message = subject, body = rest,
           files = [filePath p]\<rparr>
      | None \<Rightarrow>
          \<lparr>hash = commitHash, date = commitDate, message = persistedMessage p, body = [],
           files = [filePath p]\<rparr>)"


section \<open>Records that the codec can carry\<close>

text \<open>
  What the round trip needs of a Record, written as predicates that compute.

  A snapshot id is what the regular expression of \<^verbatim>\<open>toDomain\<close> recognises: 5 to 40
  hexadecimal digits in lower case.
\<close>

definition isSnapshotId :: "string \<Rightarrow> bool" where
  "isSnapshotId i = (list_all isHexChar i \<and> 5 \<le> length i \<and> length i \<le> 40)"

text \<open>
  The identifier template contains the marker; the text before the marker and the text
  after it hold no hexadecimal token of their own and do not put a word character
  next to the id.
\<close>

definition templateOK :: "string \<Rightarrow> bool" where
  "templateOK template =
     (case splitAtFirst SNAPSHOT_ID_MARKER template of
        None \<Rightarrow> False
      | Some (front, rest) \<Rightarrow>
          matchSnapshotIds front = [] \<and> (front = [] \<or> \<not> isWordChar (last front))
          \<and> matchSnapshotIds rest = [] \<and> (rest = [] \<or> \<not> isWordChar (hd rest)))"

text \<open>
  A service id, terms type or document id is not empty and has no slash, backslash or
  line break; an extension has no dot either.
\<close>

definition plainName :: "string \<Rightarrow> bool" where
  "plainName s = (s \<noteq> [] \<and> list_all (\<lambda>c. c \<noteq> CHR ''/'' \<and> c \<noteq> CHR 0x5C \<and> \<not> isLineTerminator c) s)"

definition plainExtension :: "string \<Rightarrow> bool" where
  "plainExtension e = list_all (\<lambda>c. c \<noteq> CHR ''.'' \<and> c \<noteq> CHR ''/'' \<and> c \<noteq> CHR 0x5C \<and> \<not> isLineTerminator c) e"

text \<open>
  The mime type has an extension in the registry, and the registry maps that extension
  back to the same type.
\<close>

definition mimeRoundTrips :: "Mime \<Rightarrow> string \<Rightarrow> bool" where
  "mimeRoundTrips m type =
     (case getExtension m (Some type) of
        None \<Rightarrow> False
      | Some e \<Rightarrow> plainExtension e \<and> mime_types m (toLowerCase e) = Some type)"

text \<open>
  A valid Record: plain names, a terms type and a document id without the separator
  \<^verbatim>\<open> #\<close>, a document id that is not empty and holds no hexadecimal token, a mime
  type that the registry maps both ways, snapshot ids that are snapshot ids, fewer than
  10000 of them (the count is written into the message), and a usable template when
  there is an id to write.
\<close>

definition validRecord :: "Mime \<Rightarrow> string \<Rightarrow> Record \<Rightarrow> bool" where
  "validRecord m template r =
     (plainName (serviceId r)
      \<and> plainName (termsType r)
      \<and> \<not> jsIncludes (termsType r) TERMS_TYPE_AND_DOCUMENT_ID_SEPARATOR
      \<and> (case documentId r of
            None \<Rightarrow> True
          | Some d \<Rightarrow> plainName d \<and> \<not> jsIncludes d TERMS_TYPE_AND_DOCUMENT_ID_SEPARATOR
                      \<and> matchSnapshotIds d = [])
      \<and> (case mimeType r of None \<Rightarrow> False | Some type \<Rightarrow> mimeRoundTrips m type)
      \<and> list_all isSnapshotId (snapshotIds r)
      \<and> length (snapshotIds r) < 10000
      \<and> (snapshotIds r = [] \<or> templateOK template))"

section \<open>Archivist (the orchestration pipeline)\<close>

definition MAX_PARALLEL_TERMS_TRACKS :: nat where
  "MAX_PARALLEL_TERMS_TRACKS = 1"

definition MAX_PARALLEL_TERMS_TRACKS_WITH_EXTRACT_ONLY :: nat where
  "MAX_PARALLEL_TERMS_TRACKS_WITH_EXTRACT_ONLY = 10"

record Document =
  location :: string
  executeClientScripts :: jsval
  cssSelectors :: jsval
  docId :: "string option"

record Terms =
  terms_serviceId :: string
  terms_termsType :: string
  documents :: "Document list"
  isMultiDocument :: bool

text \<open>
  The collaborators of the pipeline: \<^verbatim>\<open>fetch\<close> resolves with a mime type and a content
  or rejects with an error, \<^verbatim>\<open>extract\<close> resolves with a string or rejects, and
  \<open>now\<close> is the clock read by \<^verbatim>\<open>new Date()\<close> once the fetch of a document is back.
\<close>

record Env =
  env_fetch :: "string \<Rightarrow> jsval \<Rightarrow> jsval \<Rightarrow> error + (string \<times> string)"
  env_extract :: "string option \<Rightarrow> string option \<Rightarrow> Document option \<Rightarrow> error + string"
  env_now :: "Document \<Rightarrow> string"

text \<open>
  The Archivist talks to \<^verbatim>\<open>this.recorder\<close> through three methods. Their answers
  may depend on everything recorded before, so each takes the calls made so far. The
  state of a run is the list of these calls, the events emitted, and the tracking queue.
\<close>

datatype RecorderCall = RecordSnapshotCall jsobj | RecordVersionCall jsobj

record SaveResult =
  resultId :: jsval
  resultIsFirstRecord :: jsval

record RecorderIface =
  on_recordSnapshot :: "RecorderCall list \<Rightarrow> jsobj \<Rightarrow> error + SaveResult"
  on_recordVersion :: "RecorderCall list \<Rightarrow> jsobj \<Rightarrow> error + SaveResult"
  on_getLatestSnapshot :: "RecorderCall list \<Rightarrow> string \<Rightarrow> string \<Rightarrow> jsval \<Rightarrow> Record option"

datatype Event = Emit string "jsval list"

record TrackingQueue =
  concurrency :: nat
  queued :: "(Terms \<times> jsval) list"

record ArchivistState =
  calls :: "RecorderCall list"
  events :: "Event list"
  trackingQueue :: TrackingQueue

text \<open>
  The Recorder of src/archivist/recorder/index.js as \<^verbatim>\<open>this.recorder\<close>, which is what
  the constructor of the Archivist builds. \<^verbatim>\<open>Recorder.getLatestSnapshot\<close> has two
  parameters and passes them to \<^verbatim>\<open>findLatestByServiceIdAndDocumentType\<close> of the snapshots
  repository; the repositories are not among the sources, so this method and the two
  \<^verbatim>\<open>save\<close> methods are parameters, which may answer differently after each call. The
  third argument that the Archivist passes to \<^verbatim>\<open>getLatestSnapshot\<close> is dropped, as
  JavaScript drops an argument without a parameter.
\<close>

definition getLatestSnapshot ::
    "(string \<Rightarrow> string \<Rightarrow> Record option) \<Rightarrow> string \<Rightarrow> string \<Rightarrow> Record option" where
  "getLatestSnapshot findLatestByServiceIdAndDocumentType sid documentType =
     findLatestByServiceIdAndDocumentType sid documentType"

definition recorderOf ::
    "(RecorderCall list \<Rightarrow> SaveResult Recorder)
       \<Rightarrow> (RecorderCall list \<Rightarrow> string \<Rightarrow> string \<Rightarrow> Record option) \<Rightarrow> RecorderIface" where
  "recorderOf repositories findLatest =
     \<lparr>on_recordSnapshot = (\<lambda>history params. recordSnapshot (repositories history) params),
      on_recordVersion = (\<lambda>history params. recordVersion (repositories history) params),
      on_getLatestSnapshot =
        (\<lambda>history sid tt did. getLatestSnapshot (findLatest history) sid tt)\<rparr>"

definition initQueue :: "ArchivistState \<Rightarrow> ArchivistState" where
  "initQueue st = st\<lparr>trackingQueue := \<lparr>concurrency = MAX_PARALLEL_TERMS_TRACKS, queued = []\<rparr>\<rparr>"

definition emit :: "string \<Rightarrow> jsval list \<Rightarrow> ArchivistState \<Rightarrow> ArchivistState" where
  "emit name args st = st\<lparr>events := events st @ [Emit name args]\<rparr>"

definition optStr :: "string option \<Rightarrow> jsval" where
  "optStr s = (case s of None \<Rightarrow> JUndefined | Some t \<Rightarrow> JStr t)"

text \<open>
  The body of the \<^verbatim>\<open>Promise.all\<close> of \<^verbatim>\<open>fetchTermsDocuments\<close>, document by document
  in declaration order: the array of results (with a hole for a document whose content
  is inaccessible) and the messages pushed on \<^verbatim>\<open>inaccessibleContentErrors\<close>, or the
  error that is thrown again. Where several fetches are rejected with such an error,
  the first in declaration order stands for the first in time.
\<close>

fun fetchDocuments ::
    "Env \<Rightarrow> string \<Rightarrow> string \<Rightarrow> bool \<Rightarrow> Document list \<Rightarrow> error + (jsobj option list \<times> string list)" where
  "fetchDocuments env sid tt multi [] = Inr ([], [])"
| "fetchDocuments env sid tt multi (d # ds) =
     (case env_fetch env (location d) (executeClientScripts d) (cssSelectors d) of
        Inr (fetchedMimeType, fetchedContent) \<Rightarrow>
          (case fetchDocuments env sid tt multi ds of
             Inl e \<Rightarrow> Inl e
           | Inr (results, inaccessibleContentErrors) \<Rightarrow>
               Inr (Some (objectLiteral
                      [(''content'', JStr fetchedContent),
                       (''mimeType'', JStr fetchedMimeType),
                       (''serviceId'', JStr sid),
                       (''termsType'', JStr tt),
                       (''documentId'', if multi then optStr (docId d) else JBool False),
                       (''fetchDate'', JDate (env_now env d))]) # results,
                    inaccessibleContentErrors))
      | Inl error \<Rightarrow>
          (case error of
             FetchDocumentError msg \<Rightarrow>
               if jsIncludes msg ''EAI_AGAIN'' then Inl error
               else (case fetchDocuments env sid tt multi ds of
                       Inl e \<Rightarrow> Inl e
                     | Inr (results, inaccessibleContentErrors) \<Rightarrow>
                         Inr (None # results, msg # inaccessibleContentErrors))
           | _ \<Rightarrow> Inl error))"

definition fetchTermsDocuments :: "Env \<Rightarrow> Terms \<Rightarrow> error + jsobj option list" where
  "fetchTermsDocuments env terms =
     (case fetchDocuments env (terms_serviceId terms) (terms_termsType terms)
             (isMultiDocument terms) (documents terms) of
        Inl e \<Rightarrow> Inl e
      | Inr (result, inaccessibleContentErrors) \<Rightarrow>
          if inaccessibleContentErrors \<noteq> [] then
            Inl (InaccessibleContentError inaccessibleContentErrors)
          else Inr result)"

definition getTermsSnapshots :: "RecorderIface \<Rightarrow> ArchivistState \<Rightarrow> Terms \<Rightarrow> Record list" where
  "getTermsSnapshots recorder st terms =
     List.map_filter
       (\<lambda>document. on_getLatestSnapshot recorder (calls st) (terms_serviceId terms)
                      (terms_termsType terms)
                      (if isMultiDocument terms then optStr (docId document) else JBool False))
       (documents terms)"

text \<open>
  The document a snapshot is extracted with: the one whose id is the snapshot's
  \<^verbatim>\<open>documentId\<close> when that is truthy, the first document otherwise.
\<close>

definition documentOf :: "Document list \<Rightarrow> Record \<Rightarrow> Document option" where
  "documentOf docs snapshot =
     ifTruthy (documentId snapshot)
       (\<lambda>i. find (\<lambda>d. docId d = Some i) docs)
       (case docs of [] \<Rightarrow> None | d # _ \<Rightarrow> Some d)"

definition extractSnapshot :: "Env \<Rightarrow> Document list \<Rightarrow> Record \<Rightarrow> error + string" where
  "extractSnapshot env docs snapshot =
     env_extract env (content snapshot) (mimeType snapshot) (documentOf docs snapshot)"

text \<open>\<^verbatim>\<open>Promise.all\<close> of a list of results: all of them, or the first rejection.\<close>

fun allOf :: "(error + 'a) list \<Rightarrow> error + 'a list" where
  "allOf [] = Inr []"
| "allOf (Inl e # rs) = Inl e"
| "allOf (Inr x # rs) = (case allOf rs of Inl e \<Rightarrow> Inl e | Inr xs \<Rightarrow> Inr (x # xs))"

definition extractVersionContent :: "Env \<Rightarrow> Record list \<Rightarrow> Document list \<Rightarrow> error + string" where
  "extractVersionContent env snapshots docs =
     (case allOf (map (extractSnapshot env docs) snapshots) of
        Inl e \<Rightarrow> Inl e
      | Inr extracted \<Rightarrow> Inr (joinWith (NL @ NL) extracted))"

text \<open>\<^verbatim>\<open>Archivist.recordSnapshot\<close>: the snapshot id, or \<open>undefined\<close> when nothing changed.\<close>

definition archivistRecordSnapshot ::
    "RecorderIface \<Rightarrow> jsobj \<Rightarrow> ArchivistState \<Rightarrow> (error + jsval) \<times> ArchivistState" where
  "archivistRecordSnapshot recorder params st =
     (let request = objectLiteral
            [(''serviceId'', getProp params ''serviceId''),
             (''termsType'', getProp params ''termsType''),
             (''documentId'', getProp params ''documentId''),
             (''content'', getProp params ''content''),
             (''mimeType'', getProp params ''mimeType''),
             (''fetchDate'', getProp params ''fetchDate'')];
          st1 = st\<lparr>calls := calls st @ [RecordSnapshotCall request]\<rparr>
      in case on_recordSnapshot recorder (calls st) request of
           Inl e \<Rightarrow> (Inl e, st1)
         | Inr result \<Rightarrow>
             if \<not> truthy (resultId result) then
               (Inr JUndefined,
                emit ''snapshotNotChanged''
                  [getProp params ''serviceId'', getProp params ''termsType'',
                   getProp params ''documentId''] st1)
             else
               (Inr (resultId result),
                emit (if truthy (resultIsFirstRecord result) then ''firstSnapshotRecorded''
                      else ''snapshotRecorded'')
                  [getProp params ''serviceId'', getProp params ''termsType'',
                   getProp params ''documentId'', resultId result] st1))"

definition archivistRecordVersion ::
    "RecorderIface \<Rightarrow> jsobj \<Rightarrow> ArchivistState \<Rightarrow> (error + unit) \<times> ArchivistState" where
  "archivistRecordVersion recorder params st =
     (let request = objectLiteral
            [(''serviceId'', getProp params ''serviceId''),
             (''termsType'', getProp params ''termsType''),
             (''content'', getProp params ''content''),
             (''fetchDate'', getProp params ''fetchDate''),
             (''snapshotIds'', getProp params ''snapshotIds''),
             (''extractOnly'', getProp params ''extractOnly'')];
          st1 = st\<lparr>calls := calls st @ [RecordVersionCall request]\<rparr>
      in case on_recordVersion recorder (calls st) request of
           Inl e \<Rightarrow> (Inl e, st1)
         | Inr result \<Rightarrow>
             if \<not> truthy (resultId result) then
               (Inr (),
                emit ''versionNotChanged''
                  [getProp params ''serviceId'', getProp params ''termsType''] st1)
             else
               (Inr (),
                emit (if truthy (resultIsFirstRecord result) then ''firstVersionRecorded''
                      else ''versionRecorded'')
                  [getProp params ''serviceId'', getProp params ''termsType'',
                   resultId result] st1))"

text \<open>
  \<^verbatim>\<open>Promise.all(results.map(params => this.recordSnapshot(params)))\<close>: every call is
  started, in order; the outcome is the first rejection, if any. Destructuring a hole of
  the array is a \<^verbatim>\<open>TypeError\<close>.
\<close>

fun recordSnapshots ::
    "RecorderIface \<Rightarrow> jsobj option list \<Rightarrow> ArchivistState \<Rightarrow> error option \<times> ArchivistState" where
  "recordSnapshots recorder [] st = (None, st)"
| "recordSnapshots recorder (None # ps) st =
     (let (err, st2) = recordSnapshots recorder ps st
      in (Some (TypeError (''Cannot destructure property '' @ [CHR 0x27] @ ''content''
                          @ [CHR 0x27] @ '' of '' @ [CHR 0x27] @ ''undefined'' @ [CHR 0x27]
                          @ '' as it is undefined.'')), st2))"
| "recordSnapshots recorder (Some params # ps) st =
     (let (res, st1) = archivistRecordSnapshot recorder params st;
          (err, st2) = recordSnapshots recorder ps st1
      in (case res of Inl e \<Rightarrow> Some e | Inr _ \<Rightarrow> err, st2))"

text \<open>The statement guarded by \<^verbatim>\<open>if (!extractOnly)\<close> in \<^verbatim>\<open>trackTermsChanges\<close>.\<close>

definition fetchAndRecordSnapshots ::
    "Env \<Rightarrow> RecorderIface \<Rightarrow> Terms \<Rightarrow> ArchivistState \<Rightarrow> error option \<times> ArchivistState" where
  "fetchAndRecordSnapshots env recorder terms st =
     (case fetchTermsDocuments env terms of
        Inl e \<Rightarrow> (Some e, st)
      | Inr results \<Rightarrow> recordSnapshots recorder results st)"

definition versionParams :: "Terms \<Rightarrow> jsval \<Rightarrow> Record list \<Rightarrow> string \<Rightarrow> string \<Rightarrow> jsobj" where
  "versionParams terms extractOnly snapshots firstFetchDate versionContent =
     objectLiteral
       [(''content'', JStr versionContent),
        (''snapshotIds'', JArr (map (\<lambda>snapshot. optStr (recordId snapshot)) snapshots)),
        (''serviceId'', JStr (terms_serviceId terms)),
        (''termsType'', JStr (terms_termsType terms)),
        (''fetchDate'', JDate firstFetchDate),
        (''extractOnly'', extractOnly)]"

definition trackTermsChanges ::
    "Env \<Rightarrow> RecorderIface \<Rightarrow> Terms \<Rightarrow> jsval \<Rightarrow> ArchivistState \<Rightarrow> (error + unit) \<times> ArchivistState" where
  "trackTermsChanges env recorder terms extractOnly st =
     (case (if \<not> truthy extractOnly then fetchAndRecordSnapshots env recorder terms st
            else (None, st)) of
        (Some e, st1) \<Rightarrow> (Inl e, st1)
      | (None, st1) \<Rightarrow>
          (case getTermsSnapshots recorder st1 terms of
             [] \<Rightarrow> (Inr (), st1)
           | first # others \<Rightarrow>
               (case extractVersionContent env (first # others) (documents terms) of
                  Inl e \<Rightarrow> (Inl e, st1)
                | Inr versionContent \<Rightarrow>
                    archivistRecordVersion recorder
                      (versionParams terms extractOnly (first # others) (fetchDate first)
                         versionContent)
                      st1)))"

text \<open>
  The services a batch runs over: for each service id, its terms types, the terms
  declared for a type, and the number of its terms.
\<close>

record Service =
  getTermsTypes :: "string list"
  getTerms :: "string \<Rightarrow> Terms"
  getNumberOfTerms :: nat

definition forEachTermsOf ::
    "(string \<Rightarrow> Service) \<Rightarrow> string list \<Rightarrow> string list \<Rightarrow> Terms list" where
  "forEachTermsOf services sortedServicesIds termsTypes =
     concat (map (\<lambda>sid. map (getTerms (services sid))
                          (filter (\<lambda>tt. termsTypes = [] \<or> tt \<in> set termsTypes)
                                  (getTermsTypes (services sid))))
                 sortedServicesIds)"

text \<open>
  \<^verbatim>\<open>trackAllTermsChanges\<close> up to the point where it waits for the queue to drain: the
  start event, the concurrency of the queue, and one task pushed for each terms.
  \<open>localeSort\<close> is the in-place sort of the service ids by \<^verbatim>\<open>localeCompare\<close>.
\<close>

definition trackAllTermsChanges ::
    "(string \<Rightarrow> Service) \<Rightarrow> (string list \<Rightarrow> string list) \<Rightarrow> string list \<Rightarrow> string list \<Rightarrow> jsval
       \<Rightarrow> ArchivistState \<Rightarrow> ArchivistState" where
  "trackAllTermsChanges services localeSort servicesIds termsTypes extractOnly st =
     (let st1 = emit ''trackingStarted''
                  [JNum (length servicesIds),
                   JNum (sum_list (map (\<lambda>sid. getNumberOfTerms (services sid)) servicesIds)),
                   extractOnly] st;
          queue = (trackingQueue st1)
                    \<lparr>concurrency := (if truthy extractOnly
                                      then MAX_PARALLEL_TERMS_TRACKS_WITH_EXTRACT_ONLY
                                      else MAX_PARALLEL_TERMS_TRACKS)\<rparr>;
          tasks = map (\<lambda>terms. (terms, extractOnly))
                    (forEachTermsOf services (localeSort servicesIds) termsTypes)
      in st1\<lparr>trackingQueue := queue\<lparr>queued := queued queue @ tasks\<rparr>\<rparr>)"

subsection \<open>The outcome of a fetch, as the pipeline classifies it\<close>

text \<open>
  The \<^verbatim>\<open>catch\<close> block of \<^verbatim>\<open>fetchTermsDocuments\<close> sorts rejections in two: a
  \<^verbatim>\<open>FetchDocumentError\<close> whose message does not mention \<^verbatim>\<open>EAI_AGAIN\<close> marks an
  inaccessible content; every other rejection is thrown again.
\<close>

definition fetchOf :: "Env \<Rightarrow> Document \<Rightarrow> error + (string \<times> string)" where
  "fetchOf env d = env_fetch env (location d) (executeClientScripts d) (cssSelectors d)"

definition isInaccessible :: "error + (string \<times> string) \<Rightarrow> bool" where
  "isInaccessible outcome =
     (case outcome of Inl (FetchDocumentError msg) \<Rightarrow> \<not> jsIncludes msg ''EAI_AGAIN'' | _ \<Rightarrow> False)"

definition isHardFailure :: "error + (string \<times> string) \<Rightarrow> bool" where
  "isHardFailure outcome =
     (case outcome of Inl (FetchDocumentError msg) \<Rightarrow> jsIncludes msg ''EAI_AGAIN'' | Inl _ \<Rightarrow> True | Inr _ \<Rightarrow> False)"

definition inaccessibleMessages :: "Env \<Rightarrow> Document list \<Rightarrow> string list" where
  "inaccessibleMessages env docs =
     concat (map (\<lambda>d. case fetchOf env d of
                         Inl (FetchDocumentError msg) \<Rightarrow> if jsIncludes msg ''EAI_AGAIN'' then [] else [msg]
                       | _ \<Rightarrow> []) docs)"

section \<open>Sample data\<close>

definition sampleMimeBase :: Mime where
  "sampleMimeBase =
     \<lparr>mime_extensions = map_of [(''text/html'', ''html''), (''text/markdown'', ''markdown'')],
      mime_types = map_of [(''html'', ''text/html''), (''markdown'', ''text/markdown''),
                           (''md'', ''text/x-markdown'')]\<rparr>"

definition sampleMime :: Mime where
  "sampleMime = defineMarkdown sampleMimeBase"

definition twoFileCommit :: Commit where
  "twoFileCommit = \<lparr>hash = ''0a1b2c3'', date = ''2023-01-01T00:00:00.000Z'',
      message = ''Update service Terms of Service'', body = [],
      files = [''service/Terms of Service.md'', ''service/Privacy Policy.md'']\<rparr>"

definition oneFileCommit :: Commit where
  "oneFileCommit = \<lparr>hash = ''0a1b2c3'', date = ''2023-01-01T00:00:00.000Z'',
      message = ''Update service Terms of Service'', body = [],
      files = [''service/Terms of Service.md'']\<rparr>"

definition docA :: Document where
  "docA = \<lparr>location = ''https://service.example/a'', executeClientScripts = JUndefined,
            cssSelectors = JUndefined, docId = Some ''a''\<rparr>"
definition docB :: Document where
  "docB = \<lparr>location = ''https://service.example/b'', executeClientScripts = JUndefined,
            cssSelectors = JUndefined, docId = Some ''b''\<rparr>"
definition termsAB :: Terms where
  "termsAB = \<lparr>terms_serviceId = ''service'', terms_termsType = ''Terms of Service'',
      documents = [docA, docB], isMultiDocument = True\<rparr>"

definition snapshotA :: Record where
  "snapshotA = \<lparr>recordId = Some ''abc12'', serviceId = ''service'', termsType = ''Terms of Service'',
      documentId = Some ''a'', mimeType = Some ''text/html'', fetchDate = ''2023-01-01T00:00:00.000Z'',
      isFirstRecord = True, isExtractOnly = False, snapshotIds = [], content = Some ''<p>foo</p>''\<rparr>"
definition snapshotB :: Record where
  "snapshotB = \<lparr>recordId = Some ''de34f'', serviceId = ''service'', termsType = ''Terms of Service'',
      documentId = Some ''b'', mimeType = Some ''text/html'', fetchDate = ''2023-02-02T00:00:00.000Z'',
      isFirstRecord = True, isExtractOnly = False, snapshotIds = [], content = Some ''<p>bar</p>''\<rparr>"

text \<open>
  The fetch of document A succeeds and that of document B is rejected as inaccessible;
  extraction strips the paragraph tags of the two sample snapshots.
\<close>

definition sampleEnv :: Env where
  "sampleEnv = \<lparr>
     env_fetch = (\<lambda>url scripts selectors.
        if url = ''https://service.example/a'' then Inr (''text/html'', ''<p>foo</p>'')
        else Inl (FetchDocumentError ''Received HTTP code 404 when trying to fetch https://service.example/b'')),
     env_extract = (\<lambda>c m d. if c = Some ''<p>foo</p>'' then Inr ''foo'' else Inr ''bar''),
     env_now = (\<lambda>d. ''2023-03-03T00:00:00.000Z'')\<rparr>"

definition sampleRecorder :: RecorderIface where
  "sampleRecorder = \<lparr>
     on_recordSnapshot = (\<lambda>history params. Inr \<lparr>resultId = JStr ''abc12'', resultIsFirstRecord = JBool True\<rparr>),
     on_recordVersion = (\<lambda>history params. Inr \<lparr>resultId = JStr ''f00ba'', resultIsFirstRecord = JBool True\<rparr>),
     on_getLatestSnapshot = (\<lambda>history sid tt did.
        if did = JStr ''a'' then Some snapshotA else if did = JStr ''b'' then Some snapshotB else None)\<rparr>"

text \<open>
  Repositories that accept every Record, a snapshots repository that holds one snapshot
  of the sample terms (found by service id and terms type, it has no document id), and
  the Recorder of the sources over them.
\<close>

definition storedSnapshot :: Record where
  "storedSnapshot = snapshotA\<lparr>documentId := None\<rparr>"

definition sampleRepositories :: "SaveResult Recorder" where
  "sampleRepositories =
     \<lparr>versionsRepository_save = (\<lambda>r. \<lparr>resultId = JStr ''f00ba'', resultIsFirstRecord = JBool True\<rparr>),
      snapshotsRepository_save = (\<lambda>r. \<lparr>resultId = JStr ''abc12'', resultIsFirstRecord = JBool True\<rparr>)\<rparr>"

definition sampleFindLatest :: "string \<Rightarrow> string \<Rightarrow> Record option" where
  "sampleFindLatest sid tt =
     (if sid = ''service'' \<and> tt = ''Terms of Service'' then Some storedSnapshot else None)"

definition storedRecorder :: RecorderIface where
  "storedRecorder = recorderOf (\<lambda>history. sampleRepositories) (\<lambda>history. sampleFindLatest)"

text \<open>
  Both documents are fetched, and a snapshot is extracted only with the document it was
  taken from.
\<close>

definition accessibleEnv :: Env where
  "accessibleEnv = \<lparr>
     env_fetch = (\<lambda>url scripts selectors.
        if url = ''https://service.example/a'' then Inr (''text/html'', ''<p>foo</p>'')
        else Inr (''text/html'', ''<p>bar</p>'')),
     env_extract = (\<lambda>c m d.
        if c = Some ''<p>foo</p>'' \<and> d = Some docA then Inr ''foo''
        else if c = Some ''<p>bar</p>'' \<and> d = Some docB then Inr ''bar''
        else Inl (OtherError ''no content for this document'')),
     env_now = (\<lambda>d. ''2023-03-03T00:00:00.000Z'')\<rparr>"

definition emptyState :: ArchivistState where
  "emptyState = initQueue \<lparr>calls = [], events = [], trackingQueue = \<lparr>concurrency = 0, queued = []\<rparr>\<rparr>"

definition sampleServices :: "string \<Rightarrow> Service" where
  "sampleServices = (\<lambda>sid. \<lparr>getTermsTypes = [''Terms of Service''], getTerms = (\<lambda>tt. termsAB), getNumberOfTerms = 1\<rparr>)"

definition dnsFailureEnv :: Env where
  "dnsFailureEnv = sampleEnv\<lparr>env_fetch := (\<lambda>url scripts selectors.
        if url = ''https://service.example/a'' then Inr (''text/html'', ''<p>foo</p>'')
        else Inl (FetchDocumentError ''getaddrinfo EAI_AGAIN service.example''))\<rparr>"

definition sampleTemplate :: string where
  "sampleTemplate = ''https://github.com/example/snapshots/commit/%SNAPSHOT_ID''"

definition sampleVersion :: Record where
  "sampleVersion =
     \<lparr>recordId = None, serviceId = ''service'', termsType = ''Terms of Service'',
      documentId = None, mimeType = Some ''text/markdown'',
      fetchDate = ''2023-01-01T00:00:00.000Z'', isFirstRecord = False, isExtractOnly = True,
      snapshotIds = [''abc12'', ''de34f''], content = Some ''foo''\<rparr>"

definition sampleSnapshot :: Record where
  "sampleSnapshot =
     \<lparr>recordId = None, serviceId = ''service'', termsType = ''Terms of Service'',
      documentId = Some ''main'', mimeType = Some ''text/html'',
      fetchDate = ''2023-01-01T00:00:00.000Z'', isFirstRecord = True, isExtractOnly = False,
      snapshotIds = [], content = Some ''<p>foo</p>''\<rparr>"

text \<open>A first record written by an extract-only run: both flags are set.\<close>

definition firstExtractOnlyVersion :: Record where
  "firstExtractOnlyVersion = sampleVersion\<lparr>isFirstRecord := True\<rparr>"


section \<open>Properties of the Recorder\<close>

lemma recordSnapshot_echo:
  "recordSnapshot this params
     = map_sum id (snapshotsRepository_save this) (recordSnapshot echoRecorder params)"
  by (simp add: recordSnapshot_def echoRecorder_def Let_def)

lemma recordVersion_echo:
  "recordVersion this params
     = map_sum id (versionsRepository_save this) (recordVersion echoRecorder params)"
  by (simp add: recordVersion_def echoRecorder_def Let_def)

lemma recordSnapshot_falsy_content:
  "\<not> truthy (getProp params ''content'') \<Longrightarrow> \<exists>msg. recordSnapshot this params = Inl (Error msg)"
  by (simp add: recordSnapshot_def Let_def)

lemma recordVersion_falsy_content:
  "\<not> truthy (getProp params ''content'') \<Longrightarrow> \<exists>msg. recordVersion this params = Inl (Error msg)"
  by (simp add: recordVersion_def Let_def)

lemma recordSnapshot_content_irrelevant:
  "\<not> truthy (getProp p ''content'') \<Longrightarrow> \<not> truthy (getProp q ''content'') \<Longrightarrow>
   (\<forall>k. k \<noteq> ''content'' \<longrightarrow> p k = q k) \<Longrightarrow> recordSnapshot this p = recordSnapshot this q"
  by (simp add: recordSnapshot_def Let_def getProp_def)

lemma recordVersion_content_irrelevant:
  "\<not> truthy (getProp p ''content'') \<Longrightarrow> \<not> truthy (getProp q ''content'') \<Longrightarrow>
   (\<forall>k. k \<noteq> ''content'' \<longrightarrow> p k = q k) \<Longrightarrow> recordVersion this p = recordVersion this q"
  by (simp add: recordVersion_def Let_def getProp_def)

lemma recordSnapshot_saved_content:
  "recordSnapshot echoRecorder params = Inr r \<Longrightarrow>
     getProp r ''content'' = getProp params ''content'' \<and> truthy (getProp params ''content'')"
  by (auto simp add: recordSnapshot_def echoRecorder_def Let_def newRecord_def objectLiteral_def
      getProp_def split: if_splits)

lemma recordVersion_saved_content:
  "recordVersion echoRecorder params = Inr r \<Longrightarrow>
     getProp r ''content'' = getProp params ''content'' \<and> truthy (getProp params ''content'')"
  by (auto simp add: recordVersion_def echoRecorder_def Let_def newRecord_def objectLiteral_def
      getProp_def split: if_splits)

lemma recordVersion_needs_snapshotId:
  "truthy (getProp params ''serviceId'') \<Longrightarrow> truthy (getProp params ''documentType'') \<Longrightarrow>
   \<not> truthy (getProp params ''snapshotId'') \<Longrightarrow>
   recordVersion this params =
     Inl (Error (''A snapshot ID is required to ensure data consistency for ''
                 @ toStringJS (getProp params ''serviceId'') @ [CHR 0x27] @ ''s ''
                 @ toStringJS (getProp params ''documentType'')))"
  by (simp add: recordVersion_def Let_def)

lemma recordRefilter_default:
  assumes "params ''isRefilter'' = None"
  shows "recordRefilter this params = recordVersion this (params(''isRefilter'' \<mapsto> JBool True))"
proof -
  have "spread (objectLiteral [(''isRefilter'', JBool True)]) params
          = params(''isRefilter'' \<mapsto> JBool True)"
    using assms
    by (auto simp add: spread_def objectLiteral_def map_add_def fun_eq_iff split: option.splits)
  then show ?thesis by (simp add: recordRefilter_def)
qed

lemma recordRefilter_own_flag:
  assumes "params ''isRefilter'' = Some v"
  shows "recordRefilter this params = recordVersion this params"
proof -
  have "spread (objectLiteral [(''isRefilter'', JBool True)]) params = params"
    using assms
    by (auto simp add: spread_def objectLiteral_def map_add_def fun_eq_iff split: option.splits)
  then show ?thesis by (simp add: recordRefilter_def)
qed

text \<open>
  C4. \<^verbatim>\<open>Recorder.recordVersion\<close> reads the lineage from the property
  \<^verbatim>\<open>snapshotId\<close> only. Parameters that carry a non-empty array \<^verbatim>\<open>snapshotIds\<close>
  (as \<^verbatim>\<open>Archivist.recordVersion\<close> supplies it) and every other field the Recorder
  reads are rejected with the error that asks for a snapshot ID.
\<close>

theorem recordVersion_rejects_snapshotIds:
  "recordVersion echoRecorder pipelineVersionParams =
     Inl (Error (''A snapshot ID is required to ensure data consistency for service''
                 @ [CHR 0x27] @ ''s Terms of Service''))"
  by (simp add: pipelineVersionParams_def objectLiteral_def recordVersion_def getProp_def)




text \<open>
  C8. \<^verbatim>\<open>recordRefilter\<close> spreads the caller's parameters after its own
  \<^verbatim>\<open>isRefilter: true\<close>, so a flag carried by the parameters wins: with
  \<^verbatim>\<open>isRefilter: false\<close> the Record handed to the versions repository has the flag
  false, whereas \<^verbatim>\<open>recordVersion\<close> with the flag set to true hands over a Record
  with the flag true.
\<close>

theorem recordRefilter_flag_overridden:
  "map_sum id (\<lambda>r. getProp r ''isRefilter'') (recordRefilter echoRecorder notRefilterParams)
     = Inr (JBool False)
   \<and> map_sum id (\<lambda>r. getProp r ''isRefilter'')
       (recordVersion echoRecorder (notRefilterParams(''isRefilter'' \<mapsto> JBool True)))
     = Inr (JBool True)"
  by (simp add: notRefilterParams_def objectLiteral_def recordRefilter_def spread_def
      recordVersion_def getProp_def echoRecorder_def newRecord_def)

text \<open>
  C10. \<^verbatim>\<open>recordSnapshot\<close> and \<^verbatim>\<open>recordVersion\<close> answer parameters whose content is
  the empty string with the same validation error as the same parameters without a
  content; every call reaches its repository only through the Record that the echoing
  Recorder returns, and that Record never has the empty string as content, for
  \<^verbatim>\<open>recordSnapshot\<close>, \<^verbatim>\<open>recordVersion\<close> and \<^verbatim>\<open>recordRefilter\<close> alike.
\<close>

theorem empty_content_never_recorded:
  "(\<exists>msg. recordSnapshot this (params(''content'' \<mapsto> JStr [])) = Inl (Error msg)
        \<and> recordSnapshot this (params(''content'' := None)) = Inl (Error msg))
   \<and> (\<exists>msg. recordVersion this (params(''content'' \<mapsto> JStr [])) = Inl (Error msg)
        \<and> recordVersion this (params(''content'' := None)) = Inl (Error msg))
   \<and> recordSnapshot this params
        = map_sum id (snapshotsRepository_save this) (recordSnapshot echoRecorder params)
   \<and> recordVersion this params
        = map_sum id (versionsRepository_save this) (recordVersion echoRecorder params)
   \<and> (\<forall>r. recordSnapshot echoRecorder params = Inr r \<longrightarrow> getProp r ''content'' \<noteq> JStr [])
   \<and> (\<forall>r. recordVersion echoRecorder params = Inr r \<longrightarrow> getProp r ''content'' \<noteq> JStr [])
   \<and> (\<forall>r. recordRefilter echoRecorder params = Inr r \<longrightarrow> getProp r ''content'' \<noteq> JStr [])"
proof -
  let ?e = "params(''content'' \<mapsto> JStr [])" and ?m = "params(''content'' := None)"
  have fe: "\<not> truthy (getProp ?e ''content'')" and fm: "\<not> truthy (getProp ?m ''content'')"
    by (simp_all add: getProp_def)
  have same: "\<forall>k. k \<noteq> ''content'' \<longrightarrow> ?e k = ?m k" by simp
  have s: "\<exists>msg. recordSnapshot this ?e = Inl (Error msg) \<and> recordSnapshot this ?m = Inl (Error msg)"
  proof -
    obtain msg where "recordSnapshot this ?e = Inl (Error msg)"
      using recordSnapshot_falsy_content[OF fe] by blast
    moreover have "recordSnapshot this ?e = recordSnapshot this ?m"
      by (rule recordSnapshot_content_irrelevant[OF fe fm same])
    ultimately show ?thesis by metis
  qed
  have v: "\<exists>msg. recordVersion this ?e = Inl (Error msg) \<and> recordVersion this ?m = Inl (Error msg)"
  proof -
    obtain msg where "recordVersion this ?e = Inl (Error msg)"
      using recordVersion_falsy_content[OF fe] by blast
    moreover have "recordVersion this ?e = recordVersion this ?m"
      by (rule recordVersion_content_irrelevant[OF fe fm same])
    ultimately show ?thesis by metis
  qed
  have ps: "\<forall>r. recordSnapshot echoRecorder params = Inr r \<longrightarrow> getProp r ''content'' \<noteq> JStr []"
    using recordSnapshot_saved_content by fastforce
  have pv: "\<forall>p r. recordVersion echoRecorder p = Inr r \<longrightarrow> getProp r ''content'' \<noteq> JStr []"
    using recordVersion_saved_content by fastforce
  have pr: "\<forall>r. recordRefilter echoRecorder params = Inr r \<longrightarrow> getProp r ''content'' \<noteq> JStr []"
    unfolding recordRefilter_def using pv by blast
  show ?thesis
    using s v ps pv pr recordSnapshot_echo[of this params] recordVersion_echo[of this params]
    by blast
qed

theorem empty_content_never_recorded_witness:
  "(\<exists>r. recordSnapshot echoRecorder completeParams = Inr r \<and> getProp r ''content'' \<noteq> JStr [])
   \<and> (\<exists>r. recordVersion echoRecorder completeParams = Inr r \<and> getProp r ''content'' \<noteq> JStr [])
   \<and> (\<exists>r. recordRefilter echoRecorder completeParams = Inr r \<and> getProp r ''content'' \<noteq> JStr [])"
proof -
  have 1: "\<exists>r. recordSnapshot echoRecorder completeParams = Inr r"
    by (simp add: completeParams_def objectLiteral_def recordSnapshot_def getProp_def)
  have 2: "\<exists>r. recordVersion echoRecorder completeParams = Inr r"
    by (simp add: completeParams_def objectLiteral_def recordVersion_def getProp_def)
  have 3: "\<exists>r. recordRefilter echoRecorder completeParams = Inr r"
    by (simp add: completeParams_def objectLiteral_def recordRefilter_def spread_def
        recordVersion_def getProp_def)
  show ?thesis
    using 1 2 3 empty_content_never_recorded[of echoRecorder completeParams] by blast
qed

section \<open>Properties of the Record codec\<close>

text \<open>
  C6. For every commit whose diff touched two or more files, \<^verbatim>\<open>toDomain\<close> fails with
  the error whose message names the commit by its hash and lists the files; for a commit
  that touched exactly one file it returns a Record.
\<close>

theorem toDomain_one_file_only:
  "(2 \<le> length (files commit) \<longrightarrow>
      toDomain mime commit =
        Inl (Error (''Only one file should have been recorded in '' @ hash commit
                    @ '', but all these files were recorded: ''
                    @ joinWith '', '' (files commit))))
   \<and> (length (files commit) = 1 \<longrightarrow> (\<exists>r. toDomain mime commit = Inr r))"
  by (auto simp add: toDomain_def Let_def split: list.splits)

theorem toDomain_one_file_only_witness:
  "toDomain sampleMime twoFileCommit =
     Inl (Error ''Only one file should have been recorded in 0a1b2c3, but all these files were recorded: service/Terms of Service.md, service/Privacy Policy.md'')
   \<and> (\<exists>r. toDomain sampleMime oneFileCommit = Inr r)"
proof -
  have 2: "2 \<le> length (files twoFileCommit)" by (simp add: twoFileCommit_def)
  have 1: "length (files oneFileCommit) = 1" by (simp add: oneFileCommit_def)
  have m: "''Only one file should have been recorded in '' @ hash twoFileCommit
                    @ '', but all these files were recorded: ''
                    @ joinWith '', '' (files twoFileCommit)
            = ''Only one file should have been recorded in 0a1b2c3, but all these files were recorded: service/Terms of Service.md, service/Privacy Policy.md''"
    by (simp add: twoFileCommit_def)
  show ?thesis
    using 1 2 m toDomain_one_file_only[of twoFileCommit sampleMime]
      toDomain_one_file_only[of oneFileCommit sampleMime] by simp
qed

lemma getExtension_markdown:
  "getExtension (defineMarkdown base) (Some ''text/markdown'') = Some ''md''"
  by (simp add: getExtension_def defineMarkdown_def isSpace_def toLowerCase_def toLowerChar_def)

text \<open>
  C7. \<^verbatim>\<open>generateFilePath\<close> returns the service id, a slash, the terms type, the
  separator \<^verbatim>\<open> #\<close> and the document id when there is one, a dot and the extension;
  the extension is the one the mime registry gives for the mime type, it is \<^verbatim>\<open>*\<close> when
  the registry gives none, and it is \<^verbatim>\<open>md\<close> for \<^verbatim>\<open>text/markdown\<close> whatever the
  registry held before the definition of line 7.
\<close>

theorem generateFilePath_shape:
  "generateFilePath mime sid tt did mt =
      sid @ ''/'' @ tt
      @ (case did of None \<Rightarrow> [] | Some d \<Rightarrow> if d = [] then [] else '' #'' @ d)
      @ ''.'' @ (case getExtension mime mt of None \<Rightarrow> ''*'' | Some e \<Rightarrow> e)
   \<and> (getExtension mime mt = None \<longrightarrow>
        generateFilePath mime sid tt did mt =
          sid @ ''/'' @ tt
          @ (case did of None \<Rightarrow> [] | Some d \<Rightarrow> if d = [] then [] else '' #'' @ d) @ ''.*'')
   \<and> generateFilePath (defineMarkdown base) sid tt did (Some ''text/markdown'') =
        sid @ ''/'' @ tt
        @ (case did of None \<Rightarrow> [] | Some d \<Rightarrow> if d = [] then [] else '' #'' @ d) @ ''.md''"
  by (simp add: generateFilePath_def generateFileName_def ifTruthy_def getExtension_markdown
      TERMS_TYPE_AND_DOCUMENT_ID_SEPARATOR_def split: option.splits)

theorem generateFilePath_shape_witness:
  "generateFilePath sampleMime ''service'' ''Terms of Service'' (Some ''main'')
       (Some ''application/x-unknown'')
     = ''service/Terms of Service #main.*''
   \<and> generateFilePath sampleMime ''service'' ''Terms of Service'' None None
     = ''service/Terms of Service.*''
   \<and> generateFilePath sampleMime ''service'' ''Terms of Service'' None (Some ''text/markdown'')
     = ''service/Terms of Service.md''"
proof -
  have u: "getExtension sampleMime (Some ''application/x-unknown'') = None"
    by (simp add: getExtension_def sampleMime_def sampleMimeBase_def defineMarkdown_def
        isSpace_def toLowerCase_def toLowerChar_def)
  have n: "getExtension sampleMime None = None"
    by (simp add: getExtension_def sampleMime_def sampleMimeBase_def defineMarkdown_def
        isSpace_def toLowerCase_def toLowerChar_def)
  show ?thesis
    using u n
      generateFilePath_shape[of sampleMime "''service''" "''Terms of Service''" "Some ''main''"
        "Some ''application/x-unknown''"]
      generateFilePath_shape[of sampleMime "''service''" "''Terms of Service''" None None]
      generateFilePath_shape[of _ "''service''" "''Terms of Service''" None _ sampleMimeBase]
    by (simp add: sampleMime_def)
qed

section \<open>Properties of the Archivist\<close>

text \<open>
  The requests that \<^verbatim>\<open>Archivist.recordSnapshot\<close> and \<^verbatim>\<open>Archivist.recordVersion\<close>
  build name the terms type \<^verbatim>\<open>termsType\<close>, while the Recorder reads
  \<^verbatim>\<open>documentType\<close>: whatever the values, the Recorder rejects such a request, for
  want of a service id or of a document type.
\<close>

theorem recorder_rejects_archivist_requests:
  "(recordSnapshot this (objectLiteral
        [(''serviceId'', a), (''termsType'', b), (''documentId'', c), (''content'', d),
         (''mimeType'', e), (''fetchDate'', f)]) = Inl (Error ''A service ID is required'')
    \<or> recordSnapshot this (objectLiteral
        [(''serviceId'', a), (''termsType'', b), (''documentId'', c), (''content'', d),
         (''mimeType'', e), (''fetchDate'', f)]) = Inl (Error ''A document type is required''))
   \<and> (recordVersion this (objectLiteral
        [(''serviceId'', a), (''termsType'', b), (''content'', d), (''fetchDate'', f),
         (''snapshotIds'', g), (''extractOnly'', h)]) = Inl (Error ''A service ID is required'')
    \<or> recordVersion this (objectLiteral
        [(''serviceId'', a), (''termsType'', b), (''content'', d), (''fetchDate'', f),
         (''snapshotIds'', g), (''extractOnly'', h)]) = Inl (Error ''A document type is required''))"
  by (simp add: recordSnapshot_def recordVersion_def objectLiteral_def getProp_def Let_def)

text \<open>
  C9. A batch scheduled with a truthy \<^verbatim>\<open>extractOnly\<close> sets the concurrency of the
  tracking queue to 10; a batch that fetches (\<^verbatim>\<open>extractOnly\<close> falsy) sets it to 1.
\<close>

theorem concurrency_by_mode:
  "(truthy extractOnly \<longrightarrow>
      concurrency (trackingQueue (trackAllTermsChanges services localeSort servicesIds termsTypes extractOnly st)) = 10)
   \<and> (\<not> truthy extractOnly \<longrightarrow>
      concurrency (trackingQueue (trackAllTermsChanges services localeSort servicesIds termsTypes extractOnly st)) = 1)"
  by (simp add: trackAllTermsChanges_def Let_def MAX_PARALLEL_TERMS_TRACKS_def
      MAX_PARALLEL_TERMS_TRACKS_WITH_EXTRACT_ONLY_def)

theorem concurrency_by_mode_witness:
  "concurrency (trackingQueue (trackAllTermsChanges sampleServices (\<lambda>ids. ids) [''service''] [] (JBool True) emptyState)) = 10
   \<and> concurrency (trackingQueue (trackAllTermsChanges sampleServices (\<lambda>ids. ids) [''service''] [] JUndefined emptyState)) = 1
   \<and> concurrency (trackingQueue emptyState) = 1"
  using concurrency_by_mode[of "JBool True" sampleServices "\<lambda>ids. ids" "[''service'']" "[]" emptyState]
    concurrency_by_mode[of JUndefined sampleServices "\<lambda>ids. ids" "[''service'']" "[]" emptyState]
  by (simp add: emptyState_def initQueue_def MAX_PARALLEL_TERMS_TRACKS_def)

lemma isHardFailure_cases:
  obtains (ok) m c where "outcome = Inr (m, c)" "\<not> isHardFailure outcome"
  | (soft) msg where "outcome = Inl (FetchDocumentError msg)" "\<not> jsIncludes msg ''EAI_AGAIN''"
      "\<not> isHardFailure outcome"
  | (hard) e where "outcome = Inl e" "isHardFailure outcome"
proof (cases outcome)
  case (Inl e)
  then show ?thesis using soft hard
    by (cases e) (auto simp add: isHardFailure_def)
next
  case (Inr mc)
  then show ?thesis using ok by (cases mc) (auto simp add: isHardFailure_def)
qed

lemma fetchDocuments_hard_head:
  assumes "fetchOf env d = Inl e" "isHardFailure (Inl e)"
  shows "fetchDocuments env sid tt multi (d # ds) = Inl e"
  using assms by (cases e) (simp_all add: fetchOf_def isHardFailure_def)

lemma fetchDocuments_ok_head:
  assumes "fetchOf env d = Inr (m, c)"
  shows "fetchDocuments env sid tt multi (d # ds) =
     (case fetchDocuments env sid tt multi ds of
        Inl e \<Rightarrow> Inl e
      | Inr (results, errs) \<Rightarrow>
          Inr (Some (objectLiteral
                      [(''content'', JStr c), (''mimeType'', JStr m), (''serviceId'', JStr sid),
                       (''termsType'', JStr tt),
                       (''documentId'', if multi then optStr (docId d) else JBool False),
                       (''fetchDate'', JDate (env_now env d))]) # results, errs))"
  using assms by (simp add: fetchOf_def)

lemma fetchDocuments_soft_head:
  assumes "fetchOf env d = Inl (FetchDocumentError msg)" "\<not> jsIncludes msg ''EAI_AGAIN''"
  shows "fetchDocuments env sid tt multi (d # ds) =
     (case fetchDocuments env sid tt multi ds of
        Inl e \<Rightarrow> Inl e
      | Inr (results, errs) \<Rightarrow> Inr (None # results, msg # errs))"
  using assms by (simp add: fetchOf_def)

lemma inaccessibleMessages_Cons_ok:
  "fetchOf env d = Inr mc \<Longrightarrow> inaccessibleMessages env (d # ds) = inaccessibleMessages env ds"
  by (simp add: inaccessibleMessages_def)

lemma inaccessibleMessages_Cons_soft:
  "fetchOf env d = Inl (FetchDocumentError msg) \<Longrightarrow> \<not> jsIncludes msg ''EAI_AGAIN'' \<Longrightarrow>
     inaccessibleMessages env (d # ds) = msg # inaccessibleMessages env ds"
  by (simp add: inaccessibleMessages_def)

lemma fetchDocuments_soft:
  "\<forall>d \<in> set ds. \<not> isHardFailure (fetchOf env d) \<Longrightarrow>
     \<exists>results. fetchDocuments env sid tt multi ds = Inr (results, inaccessibleMessages env ds)"
proof (induction ds)
  case Nil
  then show ?case by (simp add: inaccessibleMessages_def)
next
  case (Cons d ds)
  then obtain results where
    r: "fetchDocuments env sid tt multi ds = Inr (results, inaccessibleMessages env ds)"
    by auto
  from Cons.prems have nh: "\<not> isHardFailure (fetchOf env d)" by simp
  show ?case
  proof (cases "fetchOf env d" rule: isHardFailure_cases)
    case (ok m c)
    then show ?thesis
      using r fetchDocuments_ok_head[of env d m c sid tt multi ds]
      by (simp add: inaccessibleMessages_Cons_ok del: fetchDocuments.simps)
  next
    case (soft msg)
    then show ?thesis
      using r fetchDocuments_soft_head[of env d msg sid tt multi ds]
      by (simp add: inaccessibleMessages_Cons_soft del: fetchDocuments.simps)
  next
    case (hard e)
    with nh show ?thesis by simp
  qed
qed

lemma fetchDocuments_hard:
  "\<exists>d \<in> set ds. isHardFailure (fetchOf env d) \<Longrightarrow>
     \<exists>e. fetchDocuments env sid tt multi ds = Inl e
          \<and> (\<exists>d \<in> set ds. fetchOf env d = Inl e \<and> isHardFailure (Inl e))"
proof (induction ds)
  case Nil
  then show ?case by simp
next
  case (Cons d ds)
  show ?case
  proof (cases "fetchOf env d" rule: isHardFailure_cases)
    case (hard e)
    then show ?thesis
      using fetchDocuments_hard_head[of env d e sid tt multi ds]
      by (auto simp del: fetchDocuments.simps)
  next
    case (ok m c)
    with Cons.prems have "\<exists>d \<in> set ds. isHardFailure (fetchOf env d)" by auto
    from Cons.IH[OF this] obtain e where
      e: "fetchDocuments env sid tt multi ds = Inl e"
         "\<exists>d \<in> set ds. fetchOf env d = Inl e \<and> isHardFailure (Inl e)"
      by blast
    have "fetchDocuments env sid tt multi (d # ds) = Inl e"
      using ok(1) e(1) fetchDocuments_ok_head[of env d m c sid tt multi ds]
      by (simp del: fetchDocuments.simps)
    then show ?thesis using e(2) by (auto simp del: fetchDocuments.simps)
  next
    case (soft msg)
    with Cons.prems have "\<exists>d \<in> set ds. isHardFailure (fetchOf env d)" by auto
    from Cons.IH[OF this] obtain e where
      e: "fetchDocuments env sid tt multi ds = Inl e"
         "\<exists>d \<in> set ds. fetchOf env d = Inl e \<and> isHardFailure (Inl e)"
      by blast
    have "fetchDocuments env sid tt multi (d # ds) = Inl e"
      using soft(1,2) e(1) fetchDocuments_soft_head[of env d msg sid tt multi ds]
      by (simp del: fetchDocuments.simps)
    then show ?thesis using e(2) by (auto simp del: fetchDocuments.simps)
  qed
qed

lemma set_inaccessibleMessages:
  "set (inaccessibleMessages env ds) =
     {msg. \<exists>d \<in> set ds. fetchOf env d = Inl (FetchDocumentError msg) \<and> \<not> jsIncludes msg ''EAI_AGAIN''}"
proof (induction ds)
  case Nil
  then show ?case by (simp add: inaccessibleMessages_def)
next
  case (Cons d ds)
  show ?case
  proof (cases "fetchOf env d" rule: isHardFailure_cases)
    case (ok m c)
    then show ?thesis using Cons.IH by (auto simp add: inaccessibleMessages_Cons_ok)
  next
    case (soft msg)
    then show ?thesis using Cons.IH by (auto simp add: inaccessibleMessages_Cons_soft)
  next
    case (hard e)
    then have "inaccessibleMessages env (d # ds) = inaccessibleMessages env ds"
      by (cases e) (auto simp add: inaccessibleMessages_def isHardFailure_def)
    moreover have "\<not> (\<exists>msg. fetchOf env d = Inl (FetchDocumentError msg) \<and> \<not> jsIncludes msg ''EAI_AGAIN'')"
      using hard by (auto simp add: isHardFailure_def)
    ultimately show ?thesis using Cons.IH by auto
  qed
qed

text \<open>
  C2 (as stated, refuted). Document A is fetched, the fetch of document B is rejected as
  inaccessible, and the run ends with the aggregated error without having asked the
  recorder for anything: the snapshot of A is not saved.
\<close>

theorem snapshot_of_accessible_document_not_saved:
  "fetchOf sampleEnv docA = Inr (''text/html'', ''<p>foo</p>'')
   \<and> fetchOf sampleEnv docB = Inl (FetchDocumentError ''Received HTTP code 404 when trying to fetch https://service.example/b'')
   \<and> fst (trackTermsChanges sampleEnv sampleRecorder termsAB (JBool False) emptyState)
       = Inl (InaccessibleContentError [''Received HTTP code 404 when trying to fetch https://service.example/b''])
   \<and> calls (snd (trackTermsChanges sampleEnv sampleRecorder termsAB (JBool False) emptyState)) = []"
  by (simp add: fetchOf_def sampleEnv_def docA_def docB_def termsAB_def trackTermsChanges_def
      fetchAndRecordSnapshots_def fetchTermsDocuments_def jsIncludes_def emptyState_def initQueue_def)


text \<open>
  C2 (amended). In a run that is not extract-only: when no fetch fails hard and at least
  one document is inaccessible, the run fails with one \<^verbatim>\<open>InaccessibleContentError\<close>
  whose messages are exactly those of the inaccessible documents, and the state is left
  as it was (no snapshot is saved, not even of the documents that were fetched); when
  some fetch fails hard, the run fails with the error of such a fetch, the state again
  left as it was.
\<close>

theorem inaccessible_documents_abort_before_saving:
  assumes "\<not> truthy extractOnly"
  shows "((\<forall>d \<in> set (documents terms). \<not> isHardFailure (fetchOf env d))
          \<and> (\<exists>d \<in> set (documents terms). isInaccessible (fetchOf env d)) \<longrightarrow>
          (\<exists>msgs. trackTermsChanges env recorder terms extractOnly st
                    = (Inl (InaccessibleContentError msgs), st)
                 \<and> set msgs = {msg. \<exists>d \<in> set (documents terms).
                                  fetchOf env d = Inl (FetchDocumentError msg)
                                  \<and> \<not> jsIncludes msg ''EAI_AGAIN''}))
       \<and> ((\<exists>d \<in> set (documents terms). isHardFailure (fetchOf env d)) \<longrightarrow>
          (\<exists>e. trackTermsChanges env recorder terms extractOnly st = (Inl e, st)
               \<and> (\<exists>d \<in> set (documents terms). fetchOf env d = Inl e \<and> isHardFailure (Inl e))))"
proof (intro conjI impI)
  assume a: "(\<forall>d \<in> set (documents terms). \<not> isHardFailure (fetchOf env d))
          \<and> (\<exists>d \<in> set (documents terms). isInaccessible (fetchOf env d))"
  let ?msgs = "inaccessibleMessages env (documents terms)"
  from a obtain results where
    r: "fetchDocuments env (terms_serviceId terms) (terms_termsType terms) (isMultiDocument terms) (documents terms)
          = Inr (results, ?msgs)"
    using fetchDocuments_soft by blast
  from a obtain d where d: "d \<in> set (documents terms)" "isInaccessible (fetchOf env d)" by blast
  then obtain msg where "fetchOf env d = Inl (FetchDocumentError msg)" "\<not> jsIncludes msg ''EAI_AGAIN''"
    by (auto simp add: isInaccessible_def split: sum.splits error.splits)
  with d have "msg \<in> set ?msgs" unfolding set_inaccessibleMessages by blast
  then have ne: "?msgs \<noteq> []" by auto
  have "trackTermsChanges env recorder terms extractOnly st = (Inl (InaccessibleContentError ?msgs), st)"
    using assms r ne
    by (simp add: trackTermsChanges_def fetchAndRecordSnapshots_def fetchTermsDocuments_def)
  then show "\<exists>msgs. trackTermsChanges env recorder terms extractOnly st
                    = (Inl (InaccessibleContentError msgs), st)
                 \<and> set msgs = {msg. \<exists>d \<in> set (documents terms).
                                  fetchOf env d = Inl (FetchDocumentError msg)
                                  \<and> \<not> jsIncludes msg ''EAI_AGAIN''}"
    using set_inaccessibleMessages by blast
next
  assume "\<exists>d \<in> set (documents terms). isHardFailure (fetchOf env d)"
  from fetchDocuments_hard[OF this] obtain e where
    e: "fetchDocuments env (terms_serviceId terms) (terms_termsType terms) (isMultiDocument terms) (documents terms) = Inl e"
       "\<exists>d \<in> set (documents terms). fetchOf env d = Inl e \<and> isHardFailure (Inl e)"
    by blast
  have "trackTermsChanges env recorder terms extractOnly st = (Inl e, st)"
    using assms e(1)
    by (simp add: trackTermsChanges_def fetchAndRecordSnapshots_def fetchTermsDocuments_def)
  then show "\<exists>e. trackTermsChanges env recorder terms extractOnly st = (Inl e, st)
               \<and> (\<exists>d \<in> set (documents terms). fetchOf env d = Inl e \<and> isHardFailure (Inl e))"
    using e(2) by blast
qed

theorem inaccessible_documents_abort_before_saving_witness:
  "(\<exists>msgs. trackTermsChanges sampleEnv sampleRecorder termsAB (JBool False) emptyState
             = (Inl (InaccessibleContentError msgs), emptyState)
          \<and> set msgs = {msg. \<exists>d \<in> set (documents termsAB).
                           fetchOf sampleEnv d = Inl (FetchDocumentError msg)
                           \<and> \<not> jsIncludes msg ''EAI_AGAIN''})
   \<and> (\<exists>e. trackTermsChanges dnsFailureEnv sampleRecorder termsAB (JBool False) emptyState
             = (Inl e, emptyState)
          \<and> (\<exists>d \<in> set (documents termsAB). fetchOf dnsFailureEnv d = Inl e \<and> isHardFailure (Inl e)))"
proof -
  have f: "\<not> truthy (JBool False)" by simp
  have soft: "(\<forall>d \<in> set (documents termsAB). \<not> isHardFailure (fetchOf sampleEnv d))
          \<and> (\<exists>d \<in> set (documents termsAB). isInaccessible (fetchOf sampleEnv d))"
    by (simp add: termsAB_def docA_def docB_def fetchOf_def sampleEnv_def isHardFailure_def
        isInaccessible_def jsIncludes_def)
  have hard: "\<exists>d \<in> set (documents termsAB). isHardFailure (fetchOf dnsFailureEnv d)"
    by (simp add: termsAB_def docA_def docB_def fetchOf_def dnsFailureEnv_def sampleEnv_def
        isHardFailure_def jsIncludes_def)
  show ?thesis
    using inaccessible_documents_abort_before_saving[OF f, of termsAB sampleEnv sampleRecorder emptyState]
      inaccessible_documents_abort_before_saving[OF f, of termsAB dnsFailureEnv sampleRecorder emptyState]
      soft hard
    by blast
qed

subsection \<open>The version that a run assembles\<close>

lemma allOf_map_Inr: "allOf (map Inr xs) = Inr xs"
  by (induction xs) simp_all

text \<open>
  The document a snapshot is extracted with: the first one when the snapshot has no
  document id (or an empty one), otherwise the first document declared with that id.
\<close>

lemma documentOf_pairing:
  "documentOf docs snapshot =
     (if documentId snapshot = None \<or> documentId snapshot = Some []
      then (if docs = [] then None else Some (hd docs))
      else find (\<lambda>d. docId d = documentId snapshot) docs)"
  by (cases "documentId snapshot"; cases docs) (auto simp add: documentOf_def ifTruthy_def)

text \<open>
  \<^verbatim>\<open>Archivist.recordVersion\<close> hands one request to the recorder; the outcome is the
  recorder's rejection or a normal return, and an event is emitted only when the
  recorder has answered.
\<close>

lemma archivistRecordVersion_request:
  "fst (archivistRecordVersion recorder params st)
     = map_sum id (\<lambda>result. ()) (on_recordVersion recorder (calls st) (objectLiteral
            [(''serviceId'', getProp params ''serviceId''),
             (''termsType'', getProp params ''termsType''),
             (''content'', getProp params ''content''),
             (''fetchDate'', getProp params ''fetchDate''),
             (''snapshotIds'', getProp params ''snapshotIds''),
             (''extractOnly'', getProp params ''extractOnly'')]))
   \<and> calls (snd (archivistRecordVersion recorder params st)) = calls st @ [RecordVersionCall (objectLiteral
            [(''serviceId'', getProp params ''serviceId''),
             (''termsType'', getProp params ''termsType''),
             (''content'', getProp params ''content''),
             (''fetchDate'', getProp params ''fetchDate''),
             (''snapshotIds'', getProp params ''snapshotIds''),
             (''extractOnly'', getProp params ''extractOnly'')])]
   \<and> events (snd (archivistRecordVersion recorder params st))
     = events st @
       (case on_recordVersion recorder (calls st) (objectLiteral
            [(''serviceId'', getProp params ''serviceId''),
             (''termsType'', getProp params ''termsType''),
             (''content'', getProp params ''content''),
             (''fetchDate'', getProp params ''fetchDate''),
             (''snapshotIds'', getProp params ''snapshotIds''),
             (''extractOnly'', getProp params ''extractOnly'')]) of
          Inl e \<Rightarrow> []
        | Inr result \<Rightarrow>
            [if \<not> truthy (resultId result)
             then Emit ''versionNotChanged'' [getProp params ''serviceId'', getProp params ''termsType'']
             else Emit (if truthy (resultIsFirstRecord result) then ''firstVersionRecorded''
                        else ''versionRecorded'')
                    [getProp params ''serviceId'', getProp params ''termsType'', resultId result]])"
  by (cases "on_recordVersion recorder (calls st) (objectLiteral
            [(''serviceId'', getProp params ''serviceId''),
             (''termsType'', getProp params ''termsType''),
             (''content'', getProp params ''content''),
             (''fetchDate'', getProp params ''fetchDate''),
             (''snapshotIds'', getProp params ''snapshotIds''),
             (''extractOnly'', getProp params ''extractOnly'')])")
     (simp_all add: archivistRecordVersion_def Let_def emit_def)

lemma getProp_versionParams:
  "getProp (versionParams terms extractOnly snapshots d c) ''content'' = JStr c"
  "getProp (versionParams terms extractOnly snapshots d c) ''snapshotIds''
     = JArr (map (\<lambda>snapshot. optStr (recordId snapshot)) snapshots)"
  "getProp (versionParams terms extractOnly snapshots d c) ''fetchDate'' = JDate d"
  "getProp (versionParams terms extractOnly snapshots d c) ''serviceId'' = JStr (terms_serviceId terms)"
  "getProp (versionParams terms extractOnly snapshots d c) ''termsType'' = JStr (terms_termsType terms)"
  "getProp (versionParams terms extractOnly snapshots d c) ''extractOnly'' = extractOnly"
  by (simp_all add: versionParams_def objectLiteral_def getProp_def)

text \<open>
  Whatever the recorder: when a run reaches the extraction (it is extract-only, or
  fetching and recording the snapshots succeeded), the snapshots loaded for the
  documents are not empty, and extracting each with its document yields the strings
  \<open>extractions\<close>, the run hands the recorder exactly one version request. Its content
  is the extractions joined by a blank line, its \<^verbatim>\<open>snapshotIds\<close> are the ids of the
  loaded snapshots in the same order, and its fetch date is that of the first loaded
  snapshot. The outcome of the run is the recorder's answer to this request.
\<close>

lemma version_request_assembled:
  assumes stage: "(truthy extractOnly \<and> st1 = st)
                  \<or> (\<not> truthy extractOnly \<and> fetchAndRecordSnapshots env recorder terms st = (None, st1))"
      and loaded: "getTermsSnapshots recorder st1 terms = snapshots" "snapshots \<noteq> []"
      and extracted:
        "map (\<lambda>snapshot. env_extract env (content snapshot) (mimeType snapshot)
                (documentOf (documents terms) snapshot)) snapshots = map Inr extractions"
      and request: "request = objectLiteral
               [(''serviceId'', JStr (terms_serviceId terms)),
                (''termsType'', JStr (terms_termsType terms)),
                (''content'', JStr (joinWith (NL @ NL) extractions)),
                (''fetchDate'', JDate (fetchDate (hd snapshots))),
                (''snapshotIds'', JArr (map (\<lambda>snapshot. optStr (recordId snapshot)) snapshots)),
                (''extractOnly'', extractOnly)]"
  shows "fst (trackTermsChanges env recorder terms extractOnly st)
           = map_sum id (\<lambda>result. ()) (on_recordVersion recorder (calls st1) request)
         \<and> calls (snd (trackTermsChanges env recorder terms extractOnly st))
           = calls st1 @ [RecordVersionCall request]
         \<and> events (snd (trackTermsChanges env recorder terms extractOnly st))
           = events st1 @
             (case on_recordVersion recorder (calls st1) request of
                Inl e \<Rightarrow> []
              | Inr result \<Rightarrow>
                  [if \<not> truthy (resultId result)
                   then Emit ''versionNotChanged''
                          [JStr (terms_serviceId terms), JStr (terms_termsType terms)]
                   else Emit (if truthy (resultIsFirstRecord result) then ''firstVersionRecorded''
                              else ''versionRecorded'')
                          [JStr (terms_serviceId terms), JStr (terms_termsType terms),
                           resultId result]])"
proof -
  from loaded obtain first others where fo: "snapshots = first # others" by (cases snapshots) auto
  have "map (extractSnapshot env (documents terms)) snapshots = map Inr extractions"
    using extracted unfolding extractSnapshot_def .
  then have c: "extractVersionContent env snapshots (documents terms) = Inr (joinWith (NL @ NL) extractions)"
    by (simp add: extractVersionContent_def allOf_map_Inr)
  have "trackTermsChanges env recorder terms extractOnly st =
          archivistRecordVersion recorder
            (versionParams terms extractOnly snapshots (fetchDate (hd snapshots))
               (joinWith (NL @ NL) extractions)) st1"
    using stage loaded(1) c fo by (auto simp add: trackTermsChanges_def)
  then show ?thesis
    using archivistRecordVersion_request[of recorder
        "versionParams terms extractOnly snapshots (fetchDate (hd snapshots))
           (joinWith (NL @ NL) extractions)" st1, unfolded getProp_versionParams]
    by (simp add: request)
qed

text \<open>
  With a recorder that accepts every request and returns the two sample snapshots: the
  extract-only run over the two documents hands over the content \<^verbatim>\<open>foo\<close>, a blank
  line, \<^verbatim>\<open>bar\<close>, the two snapshot ids in the order of the documents and the fetch date
  of the first snapshot, and emits \<^verbatim>\<open>firstVersionRecorded\<close>.
\<close>

lemma version_request_assembled_example:
  "fst (trackTermsChanges accessibleEnv sampleRecorder termsAB (JBool True) emptyState) = Inr ()
   \<and> calls (snd (trackTermsChanges accessibleEnv sampleRecorder termsAB (JBool True) emptyState))
       = [RecordVersionCall (objectLiteral
            [(''serviceId'', JStr ''service''), (''termsType'', JStr ''Terms of Service''),
             (''content'', JStr (''foo'' @ NL @ NL @ ''bar'')),
             (''fetchDate'', JDate ''2023-01-01T00:00:00.000Z''),
             (''snapshotIds'', JArr [JStr ''abc12'', JStr ''de34f'']),
             (''extractOnly'', JBool True)])]
   \<and> events (snd (trackTermsChanges accessibleEnv sampleRecorder termsAB (JBool True) emptyState))
       = [Emit ''firstVersionRecorded'' [JStr ''service'', JStr ''Terms of Service'', JStr ''f00ba'']]"
proof -
  have stage: "(truthy (JBool True) \<and> emptyState = emptyState)
       \<or> (\<not> truthy (JBool True)
           \<and> fetchAndRecordSnapshots accessibleEnv sampleRecorder termsAB emptyState = (None, emptyState))"
    by simp
  have loaded: "getTermsSnapshots sampleRecorder emptyState termsAB = [snapshotA, snapshotB]"
    by (simp add: getTermsSnapshots_def termsAB_def docA_def docB_def sampleRecorder_def
        List.map_filter_def optStr_def)
  have extracted:
    "map (\<lambda>snapshot. env_extract accessibleEnv (content snapshot) (mimeType snapshot)
            (documentOf (documents termsAB) snapshot)) [snapshotA, snapshotB]
       = map Inr [''foo'', ''bar'']"
    by (simp add: documentOf_def ifTruthy_def accessibleEnv_def snapshotA_def snapshotB_def
        termsAB_def docA_def docB_def)
  have request: "objectLiteral
            [(''serviceId'', JStr ''service''), (''termsType'', JStr ''Terms of Service''),
             (''content'', JStr (''foo'' @ NL @ NL @ ''bar'')),
             (''fetchDate'', JDate ''2023-01-01T00:00:00.000Z''),
             (''snapshotIds'', JArr [JStr ''abc12'', JStr ''de34f'']),
             (''extractOnly'', JBool True)]
       = objectLiteral
            [(''serviceId'', JStr (terms_serviceId termsAB)),
             (''termsType'', JStr (terms_termsType termsAB)),
             (''content'', JStr (joinWith (NL @ NL) [''foo'', ''bar''])),
             (''fetchDate'', JDate (fetchDate (hd [snapshotA, snapshotB]))),
             (''snapshotIds'', JArr (map (\<lambda>snapshot. optStr (recordId snapshot)) [snapshotA, snapshotB])),
             (''extractOnly'', JBool True)]"
    by (simp add: termsAB_def snapshotA_def snapshotB_def optStr_def)
  have none: "calls emptyState = []" "events emptyState = []"
    by (simp_all add: emptyState_def initQueue_def)
  note run = version_request_assembled[OF stage loaded _ extracted request, simplified none]
  show ?thesis
    using run by (simp add: sampleRecorder_def termsAB_def)
qed

subsection \<open>The Recorder of the sources behind the Archivist\<close>

text \<open>
  The Recorder reads the terms type from \<^verbatim>\<open>documentType\<close>, which the requests of the
  Archivist do not carry. Whatever the repositories hold and answer: a snapshot request
  with a service id is rejected for want of a document type, every version request is
  rejected for want of a service id or of a document type, and no event is emitted.
\<close>

lemma recorderOf_rejects_snapshot:
  assumes "truthy (getProp params ''serviceId'')"
  shows "fst (archivistRecordSnapshot (recorderOf repositories findLatest) params st)
           = Inl (Error ''A document type is required'')
         \<and> events (snd (archivistRecordSnapshot (recorderOf repositories findLatest) params st))
           = events st"
  using assms
  by (simp add: archivistRecordSnapshot_def recorderOf_def recordSnapshot_def objectLiteral_def
      getProp_def Let_def)

lemma recorderOf_rejects_version:
  "(fst (archivistRecordVersion (recorderOf repositories findLatest) params st)
      = Inl (Error ''A service ID is required'')
    \<or> fst (archivistRecordVersion (recorderOf repositories findLatest) params st)
      = Inl (Error ''A document type is required''))
   \<and> events (snd (archivistRecordVersion (recorderOf repositories findLatest) params st))
     = events st"
  using archivistRecordVersion_request[of "recorderOf repositories findLatest" params st]
  by (cases "truthy (getProp params ''serviceId'')")
     (simp_all add: recorderOf_def recordVersion_def objectLiteral_def getProp_def Let_def)

text \<open>
  C3. The Archivist records through the Recorder of src/archivist/recorder/index.js.
  The snapshots repository holds a snapshot of the sample terms, whose two documents
  are both accessible. In the extract-only run the snapshots are loaded (the same one
  for both documents, the document id being dropped by \<^verbatim>\<open>getLatestSnapshot\<close>), their
  extractions are joined by a blank line and handed to the Recorder with the snapshot
  ids and the fetch date of the first snapshot; the Recorder rejects the request with
  \<^verbatim>\<open>A document type is required\<close>, so the run fails, no version is saved and no event is
  emitted. The run that fetches fails with the same error when it records the
  snapshots. No version is saved whose content, snapshot ids and fetch date could be as
  the claim says.
\<close>

theorem version_rejected_by_recorder:
  "getTermsSnapshots storedRecorder emptyState termsAB = [storedSnapshot, storedSnapshot]
   \<and> fst (trackTermsChanges accessibleEnv storedRecorder termsAB (JBool True) emptyState)
       = Inl (Error ''A document type is required'')
   \<and> calls (snd (trackTermsChanges accessibleEnv storedRecorder termsAB (JBool True) emptyState))
       = [RecordVersionCall (objectLiteral
            [(''serviceId'', JStr ''service''), (''termsType'', JStr ''Terms of Service''),
             (''content'', JStr (''foo'' @ NL @ NL @ ''foo'')),
             (''fetchDate'', JDate ''2023-01-01T00:00:00.000Z''),
             (''snapshotIds'', JArr [JStr ''abc12'', JStr ''abc12'']),
             (''extractOnly'', JBool True)])]
   \<and> events (snd (trackTermsChanges accessibleEnv storedRecorder termsAB (JBool True) emptyState)) = []
   \<and> fst (trackTermsChanges accessibleEnv storedRecorder termsAB (JBool False) emptyState)
       = Inl (Error ''A document type is required'')
   \<and> events (snd (trackTermsChanges accessibleEnv storedRecorder termsAB (JBool False) emptyState)) = []"
proof -
  have loaded: "getTermsSnapshots storedRecorder emptyState termsAB = [storedSnapshot, storedSnapshot]"
    by (simp add: getTermsSnapshots_def termsAB_def docA_def docB_def storedRecorder_def
        recorderOf_def getLatestSnapshot_def sampleFindLatest_def List.map_filter_def)
  have stage: "(truthy (JBool True) \<and> emptyState = emptyState)
       \<or> (\<not> truthy (JBool True)
           \<and> fetchAndRecordSnapshots accessibleEnv storedRecorder termsAB emptyState = (None, emptyState))"
    by simp
  have extracted:
    "map (\<lambda>snapshot. env_extract accessibleEnv (content snapshot) (mimeType snapshot)
            (documentOf (documents termsAB) snapshot)) [storedSnapshot, storedSnapshot]
       = map Inr [''foo'', ''foo'']"
    by (simp add: documentOf_def ifTruthy_def accessibleEnv_def storedSnapshot_def snapshotA_def
        termsAB_def)
  have request: "objectLiteral
            [(''serviceId'', JStr ''service''), (''termsType'', JStr ''Terms of Service''),
             (''content'', JStr (''foo'' @ NL @ NL @ ''foo'')),
             (''fetchDate'', JDate ''2023-01-01T00:00:00.000Z''),
             (''snapshotIds'', JArr [JStr ''abc12'', JStr ''abc12'']),
             (''extractOnly'', JBool True)]
       = objectLiteral
            [(''serviceId'', JStr (terms_serviceId termsAB)),
             (''termsType'', JStr (terms_termsType termsAB)),
             (''content'', JStr (joinWith (NL @ NL) [''foo'', ''foo''])),
             (''fetchDate'', JDate (fetchDate (hd [storedSnapshot, storedSnapshot]))),
             (''snapshotIds'', JArr (map (\<lambda>snapshot. optStr (recordId snapshot)) [storedSnapshot, storedSnapshot])),
             (''extractOnly'', JBool True)]"
    by (simp add: termsAB_def storedSnapshot_def snapshotA_def optStr_def)
  have none: "calls emptyState = []" "events emptyState = []"
    by (simp_all add: emptyState_def initQueue_def)
  note run = version_request_assembled[OF stage loaded _ extracted request, simplified none]
  have extractOnly: "fst (trackTermsChanges accessibleEnv storedRecorder termsAB (JBool True) emptyState)
       = Inl (Error ''A document type is required'')
   \<and> calls (snd (trackTermsChanges accessibleEnv storedRecorder termsAB (JBool True) emptyState))
       = [RecordVersionCall (objectLiteral
            [(''serviceId'', JStr ''service''), (''termsType'', JStr ''Terms of Service''),
             (''content'', JStr (''foo'' @ NL @ NL @ ''foo'')),
             (''fetchDate'', JDate ''2023-01-01T00:00:00.000Z''),
             (''snapshotIds'', JArr [JStr ''abc12'', JStr ''abc12'']),
             (''extractOnly'', JBool True)])]
   \<and> events (snd (trackTermsChanges accessibleEnv storedRecorder termsAB (JBool True) emptyState)) = []"
    using run
    by (simp add: storedRecorder_def recorderOf_def recordVersion_def objectLiteral_def getProp_def)
  obtain pA pB where
    fetched: "fetchTermsDocuments accessibleEnv termsAB = Inr [Some pA, Some pB]"
    and ids: "truthy (getProp pA ''serviceId'')" "truthy (getProp pB ''serviceId'')"
    by (simp add: fetchTermsDocuments_def termsAB_def accessibleEnv_def docA_def docB_def
        objectLiteral_def getProp_def)
  have fetching: "fst (trackTermsChanges accessibleEnv storedRecorder termsAB (JBool False) emptyState)
       = Inl (Error ''A document type is required'')
   \<and> events (snd (trackTermsChanges accessibleEnv storedRecorder termsAB (JBool False) emptyState)) = []"
    using recorderOf_rejects_snapshot[OF ids(1), of "\<lambda>history. sampleRepositories"
        "\<lambda>history. sampleFindLatest" emptyState]
      recorderOf_rejects_snapshot[OF ids(2), of "\<lambda>history. sampleRepositories"
        "\<lambda>history. sampleFindLatest" "snd (archivistRecordSnapshot storedRecorder pA emptyState)"]
    by (simp add: trackTermsChanges_def fetchAndRecordSnapshots_def fetched split_beta
        storedRecorder_def none)
  show ?thesis using loaded extractOnly fetching by blast
qed

section \<open>Round trip of the Record codec\<close>

declare showNat.simps [simp del]

lemma isHexChar_isWordChar: "isHexChar c \<Longrightarrow> isWordChar c"
  by (auto simp add: isHexChar_def isWordChar_def)

lemma find_unique:
  "(\<And>n. n \<in> set xs \<Longrightarrow> P n \<Longrightarrow> n = L) \<Longrightarrow> find P xs = (if L \<in> set xs \<and> P L then Some L else None)"
  by (induction xs) auto

lemma hex_prefix_le:
  assumes "list_all isHexChar (take n s)" "n \<le> length s"
  shows "n \<le> length (takeWhile isHexChar s)"
proof -
  have "takeWhile isHexChar s = takeWhile isHexChar (take n s @ drop n s)" by simp
  also have "\<dots> = take n s @ takeWhile isHexChar (drop n s)"
    using assms(1) by (intro takeWhile_append2) (simp add: list_all_iff)
  finally show ?thesis using assms(2) by simp
qed

lemma matchTokenAt_eq:
  "matchTokenAt s =
     (let L = length (takeWhile isHexChar s)
      in if 5 \<le> L \<and> L \<le> 40 \<and> (case drop L s of [] \<Rightarrow> True | d # _ \<Rightarrow> \<not> isWordChar d)
         then Some L else None)"
proof -
  define L where "L = length (takeWhile isHexChar s)"
  define P where "P = (\<lambda>n. n \<le> length s \<and> list_all isHexChar (take n s)
                \<and> (case drop n s of [] \<Rightarrow> True | d # _ \<Rightarrow> \<not> isWordChar d))"
  have Lle: "L \<le> length s" by (simp add: L_def length_takeWhile_le)
  have uniq: "n = L" if p: "P n" for n
  proof (rule ccontr)
    assume ne: "n \<noteq> L"
    from p have "n \<le> L" using hex_prefix_le by (simp add: P_def L_def)
    with ne have lt: "n < L" by simp
    then have nlt: "n < length s" using Lle by simp
    then have d: "drop n s = s ! n # drop (Suc n) s" by (simp add: Cons_nth_drop_Suc)
    have "takeWhile isHexChar s ! n \<in> set (takeWhile isHexChar s)"
      using lt by (simp add: L_def)
    then have "isHexChar (takeWhile isHexChar s ! n)" by (rule set_takeWhileD[THEN conjunct2])
    then have "isHexChar (s ! n)" using lt by (simp add: L_def takeWhile_nth)
    with p d show False by (simp add: P_def isHexChar_isWordChar)
  qed
  have tk: "take L s = takeWhile isHexChar s" by (simp add: L_def takeWhile_eq_take[symmetric])
  have PL: "P L \<longleftrightarrow> (case drop L s of [] \<Rightarrow> True | d # _ \<Rightarrow> \<not> isWordChar d)"
    using Lle tk by (auto simp add: P_def list_all_iff dest: set_takeWhileD)
  have "matchTokenAt s = find P (rev [5..<41])"
    unfolding matchTokenAt_def P_def ..
  also have "\<dots> = (if L \<in> set (rev [5..<41]) \<and> P L then Some L else None)"
    by (rule find_unique) (use uniq in blast)
  also have "L \<in> set (rev [5..<41]) \<longleftrightarrow> 5 \<le> L \<and> L \<le> 40"
    by (simp only: set_rev set_upt atLeastLessThan_iff) arith
  finally show ?thesis using PL by (auto simp add: L_def Let_def)
qed

lemma takeWhile_append_stop: "\<not> P c \<Longrightarrow> takeWhile P (a @ c # b) = takeWhile P a"
  by (induction a) auto

lemma matchTokenAt_append:
  assumes "\<not> isWordChar c"
  shows "matchTokenAt (a @ c # b) = matchTokenAt a"
proof -
  have nh: "\<not> isHexChar c" using assms isHexChar_isWordChar by blast
  define L where "L = length (takeWhile isHexChar a)"
  have tw: "takeWhile isHexChar (a @ c # b) = takeWhile isHexChar a"
    using nh by (rule takeWhile_append_stop)
  have Lle: "L \<le> length a" by (simp add: L_def length_takeWhile_le)
  have "(case drop L (a @ c # b) of [] \<Rightarrow> True | d # _ \<Rightarrow> \<not> isWordChar d)
        = (case drop L a of [] \<Rightarrow> True | d # _ \<Rightarrow> \<not> isWordChar d)"
  proof (cases "L = length a")
    case True
    then show ?thesis using assms by simp
  next
    case False
    with Lle have "L < length a" by simp
    then obtain d ds where "drop L a = d # ds" by (cases "drop L a") auto
    then show ?thesis using Lle by simp
  qed
  then show ?thesis by (simp add: matchTokenAt_eq tw L_def)
qed

lemma matchTokenAt_Some_le: "matchTokenAt s = Some n \<Longrightarrow> 5 \<le> n \<and> n \<le> length s \<and> n = length (takeWhile isHexChar s)"
  using length_takeWhile_le[of isHexChar s]
  by (auto simp add: matchTokenAt_eq Let_def split: if_splits)

lemma matchAllFrom_append:
  "\<not> isWordChar c \<Longrightarrow> matchAllFrom pw (a @ c # b) = matchAllFrom pw a @ matchAllFrom False b"
proof (induction pw a rule: matchAllFrom.induct)
  case (1 prevWord)
  have "matchTokenAt (c # b) = None"
    using 1 isHexChar_isWordChar by (auto simp add: matchTokenAt_eq)
  then show ?case using 1 by simp
next
  case (2 prevWord x xs)
  have e: "matchTokenAt (x # xs @ c # b) = matchTokenAt (x # xs)"
    using matchTokenAt_append[OF 2(3), of "x # xs" b] by simp
  show ?case
  proof (cases prevWord)
    case True
    then show ?thesis using 2(1) 2(3) by simp
  next
    case False
    show ?thesis
    proof (cases "matchTokenAt (x # xs)")
      case None
      then show ?thesis using 2(1) 2(3) False e by simp
    next
      case (Some n)
      from matchTokenAt_Some_le[OF Some] have n: "5 \<le> n" "n \<le> Suc (length xs)" by simp_all
      then have "n - 1 \<le> length xs" by simp
      then have dr: "drop (n - 1) (xs @ c # b) = drop (n - 1) xs @ c # b" by simp
      have tk: "take n (x # xs @ c # b) = take n (x # xs)" using n by (cases n) simp_all
      have ih: "matchAllFrom True (drop (n - 1) xs @ c # b)
                  = matchAllFrom True (drop (n - 1) xs) @ matchAllFrom False b"
        using 2(2)[of n] 2(3) False Some by simp
      show ?thesis using False Some e dr tk ih by simp
    qed
  qed
qed

lemma matchAllFrom_word_True:
  "list_all isWordChar w \<Longrightarrow> matchAllFrom True w = []"
  by (induction w) simp_all

lemma matchAllFrom_word:
  assumes "list_all isWordChar w"
  shows "matchAllFrom False w = (if list_all isHexChar w \<and> 5 \<le> length w \<and> length w \<le> 40 then [w] else [])"
proof (cases w)
  case Nil
  then show ?thesis by simp
next
  case (Cons x xs)
  show ?thesis
  proof (cases "list_all isHexChar w \<and> 5 \<le> length w \<and> length w \<le> 40")
    case True
    then have tw: "takeWhile isHexChar w = w" by (simp add: list_all_iff)
    have "matchTokenAt w = Some (length w)" using True by (simp add: matchTokenAt_eq tw Let_def)
    then show ?thesis using True Cons by simp
  next
    case False
    have "matchTokenAt w = None"
    proof (cases "list_all isHexChar w")
      case True
      then have tw: "takeWhile isHexChar w = w" by (simp add: list_all_iff)
      show ?thesis using False True by (auto simp add: matchTokenAt_eq tw Let_def)
    next
      case nh: False
      define L where "L = length (takeWhile isHexChar w)"
      have "L < length w" using nh unfolding L_def
        by (metis length_takeWhile_le takeWhile_eq_all_conv list_all_iff le_neq_implies_less takeWhile_eq_take take_all_iff order_refl)
      then have d: "drop L w = w ! L # drop (Suc L) w" by (simp add: Cons_nth_drop_Suc)
      have "isWordChar (w ! L)" using assms \<open>L < length w\<close> by (simp add: list_all_length)
      then show ?thesis using d by (simp add: matchTokenAt_eq L_def)
    qed
    moreover have "matchAllFrom (isWordChar x) xs = []"
      using assms Cons by (simp add: matchAllFrom_word_True)
    ultimately show ?thesis using False Cons by simp
  qed
qed

lemma expandReplacement_plain:
  "CHR ''$'' \<notin> set r \<Longrightarrow> expandReplacement m f a r = r"
  by (induction m f a r rule: expandReplacement.induct) auto

lemma hex_no_dollar: "list_all isHexChar i \<Longrightarrow> CHR ''$'' \<notin> set i"
proof
  assume "list_all isHexChar i" and "CHR ''$'' \<in> set i"
  then have "isHexChar CHR ''$''" by (simp add: list_all_iff)
  then show False by (simp add: isHexChar_def)
qed

lemma digit_isWordChar: "c \<in> set ''0123456789'' \<Longrightarrow> isWordChar c"
  by (auto simp add: isWordChar_def)

lemma digitChar_digit: "d < 10 \<Longrightarrow> digitChar d \<in> set ''0123456789''"
  unfolding digitChar_def by (rule nth_mem) simp

lemma showNat_digits: "set (showNat n) \<subseteq> set ''0123456789''"
proof (induction n rule: showNat.induct)
  case (1 n)
  show ?case
  proof (cases "n < 10")
    case True
    then show ?thesis using digitChar_digit[of n] by (subst showNat.simps) simp
  next
    case False
    have "n mod 10 < 10" by simp
    then have "digitChar (n mod 10) \<in> set ''0123456789''" by (rule digitChar_digit)
    then show ?thesis using 1[OF False] False by (subst showNat.simps) simp
  qed
qed

lemma length_showNat: "n < 10 ^ k \<Longrightarrow> 0 < k \<Longrightarrow> length (showNat n) \<le> k"
proof (induction k arbitrary: n)
  case 0
  then show ?case by simp
next
  case (Suc k)
  show ?case
  proof (cases "n < 10")
    case True
    then show ?thesis by (subst showNat.simps) simp
  next
    case False
    then have k: "0 < k" using Suc.prems by (cases k) auto
    have "n div 10 < 10 ^ k" using Suc.prems by (simp add: less_mult_imp_div_less mult.commute)
    from Suc.IH[OF this k] show ?thesis using False by (subst showNat.simps) simp
  qed
qed

lemma showNat_no_token:
  assumes "n < 10000"
  shows "matchAllFrom False (showNat n) = []"
proof -
  have "length (showNat n) \<le> 4" using length_showNat[of n 4] assms by simp
  moreover have "list_all isWordChar (showNat n)"
    unfolding list_all_iff using showNat_digits[of n] digit_isWordChar by blast
  ultimately show ?thesis by (simp add: matchAllFrom_word)
qed

lemma dollar_no_digit: "CHR ''$'' \<notin> set ''0123456789''"
  by simp

lemma showNat_no_dollar: "CHR ''$'' \<notin> set (showNat n)"
  using showNat_digits[of n] dollar_no_digit by blast

lemma tokens_template_instance:
  assumes pre: "matchAllFrom False pre = []" "pre = [] \<or> \<not> isWordChar (last pre)"
      and post: "matchAllFrom False post = []" "post = [] \<or> \<not> isWordChar (hd post)"
      and i: "isSnapshotId i"
  shows "matchAllFrom False (pre @ i @ post) = [i]"
proof -
  have iw: "list_all isWordChar i"
    using i isHexChar_isWordChar by (auto simp add: isSnapshotId_def list_all_iff)
  have itok: "matchAllFrom False i = [i]"
    using i by (simp add: matchAllFrom_word[OF iw] isSnapshotId_def)
  have tail: "matchAllFrom False (i @ post) = [i]"
  proof (cases post)
    case Nil
    then show ?thesis using itok by simp
  next
    case (Cons c q)
    then have nc: "\<not> isWordChar c" using post(2) by simp
    have "matchAllFrom False ([] @ c # q) = matchAllFrom False [] @ matchAllFrom False q"
      using nc by (rule matchAllFrom_append)
    then have "matchAllFrom False q = []" using post(1) Cons by simp
    moreover have "matchAllFrom False (i @ c # q) = matchAllFrom False i @ matchAllFrom False q"
      using nc by (rule matchAllFrom_append)
    ultimately show ?thesis using itok Cons by simp
  qed
  show ?thesis
  proof (cases pre rule: rev_cases)
    case Nil
    then show ?thesis using tail by simp
  next
    case (snoc p c)
    then have nc: "\<not> isWordChar c" using pre(2) by simp
    have "matchAllFrom False (p @ c # []) = matchAllFrom False p @ matchAllFrom False []"
      using nc by (rule matchAllFrom_append)
    then have "matchAllFrom False p = []" using pre(1) snoc by simp
    moreover have "matchAllFrom False (p @ c # (i @ post)) = matchAllFrom False p @ matchAllFrom False (i @ post)"
      using nc by (rule matchAllFrom_append)
    ultimately show ?thesis using tail snoc by simp
  qed
qed

declare matchAllFrom.simps(2) [simp del]

lemmas scan = matchAllFrom.simps matchTokenAt_eq isHexChar_def isWordChar_def Let_def

lemma tokens_single_prefix: "matchAllFrom False SINGLE_SNAPSHOT_PREFIX = []"
  by (simp add: SINGLE_SNAPSHOT_PREFIX_def scan)

lemma tokens_single:
  assumes "matchAllFrom False y = ys"
  shows "matchAllFrom False (SINGLE_SNAPSHOT_PREFIX @ '' '' @ y) = ys"
proof -
  have "matchAllFrom False (SINGLE_SNAPSHOT_PREFIX @ CHR '' '' # y)
          = matchAllFrom False SINGLE_SNAPSHOT_PREFIX @ matchAllFrom False y"
    by (rule matchAllFrom_append) (simp add: isWordChar_def)
  then show ?thesis using assms by (simp add: tokens_single_prefix)
qed

lemma multiple_header:
  "jsReplace MULTIPLE_SNAPSHOT_PREFIX ''%NUMBER'' (showNat n)
     = ''This version was recorded after an extraction and an assembling from the following snapshots from''
       @ '' '' @ showNat n @ '' '' @ ''source documents:''"
  by (simp add: jsReplace_def MULTIPLE_SNAPSHOT_PREFIX_def expandReplacement_plain[OF showNat_no_dollar])

lemma not_word_space: "\<not> isWordChar CHR '' ''"
  by (simp add: isWordChar_def)

lemma not_word_newline: "\<not> isWordChar (CHR 0x0A)"
  by (simp add: isWordChar_def)

lemma tokens_multiple_header:
  assumes "n < 10000"
  shows "matchAllFrom False (jsReplace MULTIPLE_SNAPSHOT_PREFIX ''%NUMBER'' (showNat n) @ NL @ x)
           = matchAllFrom False x"
proof -
  let ?a = "''This version was recorded after an extraction and an assembling from the following snapshots from''"
  let ?b = "''source documents:''"
  have a: "matchAllFrom False ?a = []" by (simp add: scan)
  have b: "matchAllFrom False ?b = []" by (simp add: scan)
  have "matchAllFrom False (?a @ CHR '' '' # (showNat n @ CHR '' '' # (?b @ CHR 0x0A # x)))
        = matchAllFrom False ?a @ matchAllFrom False (showNat n @ CHR '' '' # (?b @ CHR 0x0A # x))"
    using not_word_space by (rule matchAllFrom_append)
  also have "matchAllFrom False (showNat n @ CHR '' '' # (?b @ CHR 0x0A # x))
        = matchAllFrom False (showNat n) @ matchAllFrom False (?b @ CHR 0x0A # x)"
    using not_word_space by (rule matchAllFrom_append)
  also have "matchAllFrom False (?b @ CHR 0x0A # x) = matchAllFrom False ?b @ matchAllFrom False x"
    using not_word_newline by (rule matchAllFrom_append)
  finally have "matchAllFrom False (?a @ CHR '' '' # (showNat n @ CHR '' '' # (?b @ CHR 0x0A # x)))
        = matchAllFrom False x"
    using a b showNat_no_token[OF assms] by simp
  then show ?thesis by (simp add: multiple_header)
qed

lemma tokens_skip_newline: "matchAllFrom False (CHR 0x0A # x) = matchAllFrom False x"
  using matchAllFrom_append[OF not_word_newline, of False "[]" x] by simp

lemma tokens_documentIdMessage:
  assumes "case documentId r of None \<Rightarrow> True | Some d \<Rightarrow> matchSnapshotIds d = []"
  shows "matchAllFrom False (documentIdMessageOf r @ NL @ NL @ x) = matchAllFrom False x"
proof (cases "documentId r")
  case None
  then show ?thesis by (simp add: documentIdMessageOf_def ifTruthy_def tokens_skip_newline)
next
  case (Some d)
  show ?thesis
  proof (cases "d = []")
    case True
    then show ?thesis using Some by (simp add: documentIdMessageOf_def ifTruthy_def tokens_skip_newline)
  next
    case False
    have d: "matchAllFrom False d = []" using assms Some by (simp add: matchSnapshotIds_def)
    have lit: "matchAllFrom False ''Document ID'' = []" by (simp add: scan)
    have "matchAllFrom False (''Document ID'' @ CHR '' '' # (d @ CHR 0x0A # (NL @ NL @ NL @ x)))
            = matchAllFrom False ''Document ID'' @ matchAllFrom False (d @ CHR 0x0A # (NL @ NL @ NL @ x))"
      using not_word_space by (rule matchAllFrom_append)
    also have "matchAllFrom False (d @ CHR 0x0A # (NL @ NL @ NL @ x))
            = matchAllFrom False d @ matchAllFrom False (NL @ NL @ NL @ x)"
      using not_word_newline by (rule matchAllFrom_append)
    finally have "matchAllFrom False (''Document ID'' @ CHR '' '' # (d @ CHR 0x0A # (NL @ NL @ NL @ x)))
            = matchAllFrom False x"
      using d lit by (simp add: tokens_skip_newline)
    then show ?thesis using Some False by (simp add: documentIdMessageOf_def ifTruthy_def)
  qed
qed

lemma tokens_line:
  assumes "matchAllFrom False y = ys"
  shows "matchAllFrom False (''- '' @ y) = ys"
proof -
  have "matchAllFrom False (''-'' @ CHR '' '' # y) = matchAllFrom False ''-'' @ matchAllFrom False y"
    using not_word_space by (rule matchAllFrom_append)
  moreover have "matchAllFrom False ''-'' = []" by (simp add: scan)
  ultimately show ?thesis using assms by simp
qed

lemma tokens_lines:
  assumes "\<And>i. i \<in> set ids \<Longrightarrow> matchAllFrom False (f i) = [i]"
  shows "matchAllFrom False (joinWith NL (map (\<lambda>i. ''- '' @ f i) ids)) = ids"
  using assms
proof (induction ids rule: induct_list012)
  case 1
  then show ?case by simp
next
  case (2 x)
  then show ?case using tokens_line[of "f x" "[x]"] by simp
next
  case (3 x y zs)
  have rest: "matchAllFrom False (joinWith NL (map (\<lambda>i. ''- '' @ f i) (y # zs))) = y # zs"
    using 3 by simp
  have "matchAllFrom False ((''- '' @ f x) @ CHR 0x0A # joinWith NL (map (\<lambda>i. ''- '' @ f i) (y # zs)))
          = matchAllFrom False (''- '' @ f x) @ matchAllFrom False (joinWith NL (map (\<lambda>i. ''- '' @ f i) (y # zs)))"
    using not_word_newline by (rule matchAllFrom_append)
  then show ?case using rest tokens_line[of "f x" "[x]"] 3(3)[of x] by simp
qed

lemma takeWhile_all_stop: "list_all P a \<Longrightarrow> \<not> P c \<Longrightarrow> takeWhile P (a @ c # b) = a"
  by (induction a) auto

lemma dropWhile_all_stop: "list_all P a \<Longrightarrow> \<not> P c \<Longrightarrow> dropWhile P (a @ c # b) = c # b"
  by (induction a) auto

lemma dropWhile_none: "a \<noteq> [] \<Longrightarrow> \<not> P (hd a) \<Longrightarrow> dropWhile P (a @ b) = a @ b"
  by (cases a) auto

lemma list_all_rev_iff: "list_all P (rev a) = list_all P a"
  by (simp add: list_all_iff)

text \<open>A path \<open>dir/name\<close> whose file name is not empty and has no slash.\<close>

lemma lastSegment_path:
  assumes "name \<noteq> []" "list_all (\<lambda>c. c \<noteq> CHR ''/'') name"
  shows "lastSegment (dir @ CHR ''/'' # name) = name"
proof -
  have ne: "rev name \<noteq> []" using assms(1) by simp
  have hd: "\<not> (hd (rev name) = CHR ''/'')"
    using assms by (cases name rule: rev_cases) (simp_all add: list_all_iff)
  have "dropWhile (\<lambda>c. c = CHR ''/'') (rev name @ CHR ''/'' # rev dir) = rev name @ CHR ''/'' # rev dir"
    using ne hd by (rule dropWhile_none)
  moreover have "takeWhile (\<lambda>c. c \<noteq> CHR ''/'') (rev name @ CHR ''/'' # rev dir) = rev name"
    using assms(2) by (intro takeWhile_all_stop) (simp_all add: list_all_rev_iff)
  ultimately show ?thesis by (simp add: lastSegment_def)
qed

lemma dirname_path:
  assumes "name \<noteq> []" "list_all (\<lambda>c. c \<noteq> CHR ''/'') name"
      and "dir \<noteq> []" "list_all (\<lambda>c. c \<noteq> CHR ''/'') dir"
  shows "dirname (dir @ CHR ''/'' # name) = dir"
proof -
  obtain x xs where dir: "dir = x # xs" using assms(3) by (cases dir) auto
  have x: "x \<noteq> CHR ''/''" using assms(4) dir by simp
  have ne: "rev name \<noteq> []" using assms(1) by simp
  have hd: "\<not> (hd (rev name) = CHR ''/'')"
    using assms by (cases name rule: rev_cases) (simp_all add: list_all_iff)
  have d1: "dropWhile (\<lambda>c. c = CHR ''/'') (rev name @ CHR ''/'' # rev xs) = rev name @ CHR ''/'' # rev xs"
    using ne hd by (rule dropWhile_none)
  have d2: "dropWhile (\<lambda>c. c \<noteq> CHR ''/'') (rev name @ CHR ''/'' # rev xs) = CHR ''/'' # rev xs"
    using assms(2) by (intro dropWhile_all_stop) (simp_all add: list_all_rev_iff)
  show ?thesis using x d1 d2 by (simp add: dirname_def dir Let_def)
qed

lemma extname_path:
  assumes "stem \<noteq> []" "list_all (\<lambda>c. c \<noteq> CHR ''/'') stem"
      and "e \<noteq> []" "list_all (\<lambda>c. c \<noteq> CHR ''/'') e" "list_all (\<lambda>c. c \<noteq> CHR ''.'') e"
  shows "extname (dir @ CHR ''/'' # stem @ CHR ''.'' # e) = CHR ''.'' # e"
proof -
  let ?seg = "stem @ CHR ''.'' # e"
  have seg: "lastSegment (dir @ CHR ''/'' # ?seg) = ?seg"
    using assms by (intro lastSegment_path) simp_all
  have after: "takeWhile (\<lambda>c. c \<noteq> CHR ''.'') (rev e @ CHR ''.'' # rev stem) = rev e"
    using assms(5) by (intro takeWhile_all_stop) (simp_all add: list_all_rev_iff)
  have "last ?seg = last e" using assms(3) by simp
  moreover have "last e \<noteq> CHR ''.''" using assms(3,5) by (cases e rule: rev_cases) simp_all
  ultimately have nd: "?seg \<noteq> ''..''" by (metis last.simps list.distinct(1))
  show ?thesis using seg after nd assms(1) by (simp add: extname_def Let_def)
qed

lemma startsWith_append: "startsWith (a @ b) a"
  by (induction a) simp_all

lemma basename_path:
  assumes "stem \<noteq> []" "list_all (\<lambda>c. c \<noteq> CHR ''/'') stem"
      and "list_all (\<lambda>c. c \<noteq> CHR ''/'') e"
  shows "basename (dir @ CHR ''/'' # stem @ CHR ''.'' # e) (CHR ''.'' # e) = stem"
proof -
  let ?seg = "stem @ CHR ''.'' # e"
  have seg: "lastSegment (dir @ CHR ''/'' # ?seg) = ?seg"
    using assms by (intro lastSegment_path) simp_all
  have ends: "endsWith ?seg (CHR ''.'' # e)"
    using startsWith_append[of "rev e @ [CHR ''.'']" "rev stem"] by (simp add: endsWith_def)
  have neq: "CHR ''.'' # e \<noteq> dir @ CHR ''/'' # ?seg"
  proof
    assume "CHR ''.'' # e = dir @ CHR ''/'' # ?seg"
    then have "length (CHR ''.'' # e) = length (dir @ CHR ''/'' # ?seg)" by simp
    then show False by simp
  qed
  show ?thesis using seg ends neq assms(1) by (simp add: basename_def Let_def)
qed

lemma letters_disjoint: "set lowerCaseLetters \<inter> set upperCaseLetters = {}"
  by (simp add: lowerCaseLetters_def upperCaseLetters_def)

lemma toLowerChar_alt:
  "toLowerChar c = (case map_of (zip upperCaseLetters lowerCaseLetters) c of None \<Rightarrow> c | Some l \<Rightarrow> l)"
  unfolding toLowerChar_def upperCaseLetters_def lowerCaseLetters_def ..

lemma toLowerChar_lower: "l \<in> set lowerCaseLetters \<Longrightarrow> toLowerChar l = l"
proof -
  assume "l \<in> set lowerCaseLetters"
  then have "l \<notin> set upperCaseLetters" using letters_disjoint by blast
  moreover have "fst ` set (zip upperCaseLetters lowerCaseLetters) \<subseteq> set upperCaseLetters"
    by (auto dest: set_zip_leftD)
  ultimately have "map_of (zip upperCaseLetters lowerCaseLetters) l = None"
    by (meson map_of_eq_None_iff subsetD)
  then show ?thesis by (simp add: toLowerChar_alt)
qed

lemma toLowerChar_cases:
  "toLowerChar c = c \<or> toLowerChar c \<in> set lowerCaseLetters"
proof (cases "map_of (zip upperCaseLetters lowerCaseLetters) c")
  case None
  then show ?thesis by (simp add: toLowerChar_alt)
next
  case (Some l)
  then have "(c, l) \<in> set (zip upperCaseLetters lowerCaseLetters)" by (rule map_of_SomeD)
  then have "l \<in> set lowerCaseLetters" by (rule set_zip_rightD)
  then show ?thesis using Some by (simp add: toLowerChar_alt)
qed

lemma toLowerChar_idem: "toLowerChar (toLowerChar c) = toLowerChar c"
  using toLowerChar_cases[of c] toLowerChar_lower[of "toLowerChar c"] by auto

lemma toLowerCase_idem: "toLowerCase (toLowerCase s) = toLowerCase s"
  by (simp add: toLowerCase_def toLowerChar_idem)

lemma toLowerChar_special:
  assumes "x \<notin> set lowerCaseLetters" "toLowerChar x = x"
  shows "(toLowerChar c = x) = (c = x)"
  using toLowerChar_cases[of c] assms by auto

lemma toLowerChar_dot: "(toLowerChar c = CHR ''.'') = (c = CHR ''.'')"
  by (rule toLowerChar_special) (simp_all add: toLowerChar_def lowerCaseLetters_def)

lemma toLowerChar_nl: "(toLowerChar c = CHR 0x0A) = (c = CHR 0x0A)"
  by (rule toLowerChar_special) (simp_all add: toLowerChar_def lowerCaseLetters_def)

lemma toLowerChar_cr: "(toLowerChar c = CHR 0x0D) = (c = CHR 0x0D)"
  by (rule toLowerChar_special) (simp_all add: toLowerChar_def lowerCaseLetters_def)

lemma stripThrough_last:
  assumes "list_all (\<lambda>c. \<not> isLineTerminator c) (a @ x # b)" "P x" "list_all (\<lambda>c. \<not> P c) b"
  shows "stripThrough P (a @ x # b) = b"
proof -
  have line: "takeWhile (\<lambda>c. \<not> isLineTerminator c) (a @ x # b) = a @ x # b"
    using assms(1) by (simp add: list_all_iff)
  have ex: "list_ex P (a @ x # b)" using assms(2) by (simp add: list_ex_iff)
  have "takeWhile (\<lambda>c. \<not> P c) (rev b @ x # rev a) = rev b"
    using assms(2,3) by (intro takeWhile_all_stop) (simp_all add: list_all_rev_iff)
  then show ?thesis using ex by (simp add: stripThrough_def line Let_def)
qed

lemma list_all_weaken: "list_all P xs \<Longrightarrow> (\<And>x. P x \<Longrightarrow> Q x) \<Longrightarrow> list_all Q xs"
  by (induction xs) simp_all

lemma not_terminator_slash: "\<not> isLineTerminator CHR ''/''"
  by (simp add: isLineTerminator_def)

lemma not_terminator_dot: "\<not> isLineTerminator CHR ''.''"
  by (simp add: isLineTerminator_def)

lemma isLineTerminator_lower: "isLineTerminator (toLowerChar c) = isLineTerminator c"
  by (simp add: isLineTerminator_def toLowerChar_nl toLowerChar_cr)

lemma g_dot: "toLowerChar CHR ''.'' = CHR ''.''"
  using toLowerChar_dot[of "CHR ''.''"] by simp

lemma g_last: "toLowerCase (stem @ CHR ''.'' # e) = toLowerCase stem @ CHR ''.'' # toLowerCase e"
  by (simp add: toLowerCase_def g_dot)

lemma list_all_toLowerCase:
  "(\<And>c. P (toLowerChar c) = P c) \<Longrightarrow> list_all P (toLowerCase s) = list_all P s"
  by (induction s) (simp_all add: toLowerCase_def)

lemma getType_path:
  assumes "stem \<noteq> []"
      and "list_all (\<lambda>c. \<not> isLineTerminator c) dir"
      and "list_all (\<lambda>c. c \<noteq> CHR ''/'' \<and> c \<noteq> CHR 0x5C \<and> \<not> isLineTerminator c) stem"
      and "list_all (\<lambda>c. c \<noteq> CHR ''.'' \<and> c \<noteq> CHR ''/'' \<and> c \<noteq> CHR 0x5C \<and> \<not> isLineTerminator c) e"
  shows "getType m (dir @ CHR ''/'' # stem @ CHR ''.'' # e)
           = (case mime_types m (toLowerCase e) of
                None \<Rightarrow> None
              | Some t \<Rightarrow> if t = [] then None else Some t)"
proof -
  let ?p = "dir @ CHR ''/'' # stem @ CHR ''.'' # e"
  let ?sep = "\<lambda>c. c = CHR ''/'' \<or> c = CHR 0x5C"
  have stem_lt: "list_all (\<lambda>c. \<not> isLineTerminator c) stem"
    using assms(3) by (rule list_all_weaken) simp
  have e_lt: "list_all (\<lambda>c. \<not> isLineTerminator c) e"
    using assms(4) by (rule list_all_weaken) simp
  have stem_sep: "list_all (\<lambda>c. \<not> ?sep c) stem"
    using assms(3) by (rule list_all_weaken) simp
  have e_sep: "list_all (\<lambda>c. \<not> ?sep c) e"
    using assms(4) by (rule list_all_weaken) simp
  have e_dot: "list_all (\<lambda>c. \<not> c = CHR ''.'') e"
    using assms(4) by (rule list_all_weaken) simp
  have nolt: "list_all (\<lambda>c. \<not> isLineTerminator c) ?p"
    using assms(2) stem_lt e_lt by (simp add: not_terminator_slash not_terminator_dot)
  have nosep: "list_all (\<lambda>c. \<not> ?sep c) (stem @ CHR ''.'' # e)"
    using stem_sep e_sep by simp
  have s1: "stripThrough ?sep ?p = stem @ CHR ''.'' # e"
    by (rule stripThrough_last[OF nolt _ nosep]) simp
  let ?last = "toLowerCase stem @ CHR ''.'' # toLowerCase e"
  have nolt2: "list_all (\<lambda>c. \<not> isLineTerminator c) ?last"
    using stem_lt e_lt
    by (simp add: list_all_toLowerCase isLineTerminator_lower not_terminator_dot)
  have nodot: "list_all (\<lambda>c. \<not> c = CHR ''.'') (toLowerCase e)"
    using e_dot by (simp add: list_all_toLowerCase toLowerChar_dot)
  have s2: "stripThrough (\<lambda>c. c = CHR ''.'') ?last = toLowerCase e"
    by (rule stripThrough_last[OF nolt2 _ nodot]) simp
  have len: "length (toLowerCase e) + 1 < length ?last"
    using assms(1) by (cases stem) (simp_all add: toLowerCase_def)
  have L: "toLowerCase (stripThrough ?sep ?p) = ?last"
    using s1 g_last by simp
  have E: "toLowerCase (stripThrough (\<lambda>c. c = CHR ''.'') ?last) = toLowerCase e"
    using s2 toLowerCase_idem by simp
  have "getType m ?p =
          (if length (toLowerCase e) + 1 < length ?last \<or> \<not> length ?last < length ?p
           then (case mime_types m (toLowerCase e) of
                   None \<Rightarrow> None
                 | Some t \<Rightarrow> if t = [] then None else Some t)
           else None)"
    unfolding getType_def Let_def L E ..
  then show ?thesis using len by simp
qed

lemma not_includes_Cons:
  "\<not> jsIncludes (c # cs) sep \<Longrightarrow> \<not> startsWith (c # cs) sep \<and> \<not> jsIncludes cs sep"
  by (auto simp add: jsIncludes_def split: if_splits option.splits)

lemma splitOn_no_separator:
  "\<not> jsIncludes t sep \<Longrightarrow> splitOn sep acc t = [rev acc @ t]"
proof (induction t arbitrary: acc)
  case Nil
  then show ?case by simp
next
  case (Cons c cs)
  from not_includes_Cons[OF Cons.prems] have "\<not> startsWith (c # cs) sep" "\<not> jsIncludes cs sep"
    by simp_all
  then show ?case using Cons.IH[of "c # acc"] by simp
qed

lemma splitOn_at_separator:
  "\<not> jsIncludes t '' #'' \<Longrightarrow>
     splitOn '' #'' acc (t @ '' #'' @ d) = (rev acc @ t) # splitOn '' #'' [] d"
proof (induction t arbitrary: acc)
  case Nil
  then show ?case by simp
next
  case (Cons c cs)
  from not_includes_Cons[OF Cons.prems]
  have ns: "\<not> startsWith (c # cs) '' #''" and ni: "\<not> jsIncludes cs '' #''" by simp_all
  have "\<not> startsWith (c # cs @ '' #'' @ d) '' #''"
    using ns by (cases cs) simp_all
  then show ?case using Cons.IH[OF ni, of "c # acc"] by simp
qed

lemma newline_is_terminator: "isLineTerminator (CHR 0x0A)"
  by (simp add: isLineTerminator_def)

lemma splitAtFirst_blank_line:
  "CHR 0x0A \<notin> set a \<Longrightarrow> splitAtFirst (NL @ NL) (a @ NL @ NL @ b) = Some (a, b)"
  by (induction a) auto

lemma decode_flags:
  "(startsWith (subjectOf r) COMMIT_MESSAGE_PREFIX_startTracking
      \<or> startsWith (subjectOf r) COMMIT_MESSAGE_PREFIX_deprecated_startTracking) = isFirstRecord r"
  "(startsWith (subjectOf r) COMMIT_MESSAGE_PREFIX_extractOnly
      \<or> startsWith (subjectOf r) COMMIT_MESSAGE_PREFIX_deprecated_refilter)
     = (isExtractOnly r \<and> \<not> isFirstRecord r)"
  by (simp_all add: subjectOf_def COMMIT_MESSAGE_PREFIX_startTracking_def
      COMMIT_MESSAGE_PREFIX_deprecated_startTracking_def COMMIT_MESSAGE_PREFIX_extractOnly_def
      COMMIT_MESSAGE_PREFIX_deprecated_refilter_def COMMIT_MESSAGE_PREFIX_update_def)

lemma jsReplace_template:
  assumes "splitAtFirst SNAPSHOT_ID_MARKER template = Some (front, rest)" "isSnapshotId i"
  shows "jsReplace template SNAPSHOT_ID_MARKER i = front @ i @ rest"
proof -
  have "CHR ''$'' \<notin> set i" using assms(2) hex_no_dollar by (simp add: isSnapshotId_def)
  then show ?thesis using assms(1) by (simp add: jsReplace_def expandReplacement_plain)
qed

lemma tokens_template:
  assumes "templateOK template" "isSnapshotId i"
  shows "matchAllFrom False (jsReplace template SNAPSHOT_ID_MARKER i) = [i]"
proof -
  from assms(1) obtain front rest where
    sp: "splitAtFirst SNAPSHOT_ID_MARKER template = Some (front, rest)"
    and f: "matchAllFrom False front = []" "front = [] \<or> \<not> isWordChar (last front)"
    and r: "matchAllFrom False rest = []" "rest = [] \<or> \<not> isWordChar (hd rest)"
    by (auto simp add: templateOK_def matchSnapshotIds_def split: option.splits)
  show ?thesis
    unfolding jsReplace_template[OF sp assms(2)]
    using f r assms(2) by (rule tokens_template_instance)
qed

lemma tokens_snapshotIdsMessage:
  assumes "list_all isSnapshotId (snapshotIds r)" "length (snapshotIds r) < 10000"
      and "snapshotIds r = [] \<or> templateOK template"
  shows "matchAllFrom False (case snapshotIdsMessageOf r template of None \<Rightarrow> [] | Some m \<Rightarrow> m)
           = snapshotIds r"
proof -
  consider (none) "snapshotIds r = []" | (one) i where "snapshotIds r = [i]"
    | (many) i j ks where "snapshotIds r = i # j # ks"
  proof (cases "snapshotIds r")
    case Nil
    then show ?thesis using none by simp
  next
    case (Cons i rest)
    then show ?thesis using one many by (cases rest) auto
  qed
  then show ?thesis
  proof cases
  case none
  then show ?thesis by (simp add: snapshotIdsMessageOf_def)
next
  case (one i)
  then have ok: "templateOK template" "isSnapshotId i" using assms by simp_all
  have "matchAllFrom False (SINGLE_SNAPSHOT_PREFIX @ '' '' @ jsReplace template SNAPSHOT_ID_MARKER i) = [i]"
    using tokens_template[OF ok] by (rule tokens_single)
  then show ?thesis using one by (simp add: snapshotIdsMessageOf_def)
next
  case (many i j ks)
  then have ok: "templateOK template" using assms by simp
  have each: "\<And>k. k \<in> set (snapshotIds r) \<Longrightarrow>
                matchAllFrom False (jsReplace template SNAPSHOT_ID_MARKER k) = [k]"
    using assms(1) ok by (simp add: tokens_template list_all_iff)
  have lines: "matchAllFrom False
                 (joinWith NL (map (\<lambda>k. ''- '' @ jsReplace template SNAPSHOT_ID_MARKER k) (snapshotIds r)))
               = snapshotIds r"
    using each by (rule tokens_lines)
  have "matchAllFrom False
          (jsReplace MULTIPLE_SNAPSHOT_PREFIX ''%NUMBER'' (showNat (length (snapshotIds r))) @ NL
           @ joinWith NL (map (\<lambda>k. ''- '' @ jsReplace template SNAPSHOT_ID_MARKER k) (snapshotIds r)))
        = snapshotIds r"
    using tokens_multiple_header[OF assms(2)] lines by simp
  moreover have "snapshotIdsMessageOf r template =
      Some (jsReplace MULTIPLE_SNAPSHOT_PREFIX ''%NUMBER'' (showNat (length (snapshotIds r))) @ NL
           @ joinWith NL (map (\<lambda>k. ''- '' @ jsReplace template SNAPSHOT_ID_MARKER k) (snapshotIds r)))"
    using many by (simp add: snapshotIdsMessageOf_def)
  ultimately show ?thesis by simp
qed
qed

lemma tokens_body:
  assumes "validRecord m template r"
  shows "matchSnapshotIds
           (documentIdMessageOf r @ NL @ NL
            @ (case snapshotIdsMessageOf r template of None \<Rightarrow> [] | Some msg \<Rightarrow> msg))
         = snapshotIds r"
proof -
  have d: "case documentId r of None \<Rightarrow> True | Some d \<Rightarrow> matchSnapshotIds d = []"
    using assms by (simp add: validRecord_def split: option.splits)
  have s: "list_all isSnapshotId (snapshotIds r)" "length (snapshotIds r) < 10000"
          "snapshotIds r = [] \<or> templateOK template"
    using assms by (simp_all add: validRecord_def)
  show ?thesis
    unfolding matchSnapshotIds_def tokens_documentIdMessage[OF d]
    using s by (rule tokens_snapshotIdsMessage)
qed

lemma getExtension_Some:
  "getExtension m (Some t) = Some e \<Longrightarrow> e \<noteq> [] \<and> t \<noteq> []"
  by (auto simp add: getExtension_def Let_def split: if_splits option.splits)

lemma plainName_parts:
  assumes "plainName s"
  shows "s \<noteq> []" "list_all (\<lambda>c. c \<noteq> CHR ''/'') s" "list_all (\<lambda>c. \<not> isLineTerminator c) s"
        "list_all (\<lambda>c. c \<noteq> CHR ''/'' \<and> c \<noteq> CHR 0x5C \<and> \<not> isLineTerminator c) s"
        "CHR 0x0A \<notin> set s"
proof -
  show "s \<noteq> []" using assms by (simp add: plainName_def)
  show a: "list_all (\<lambda>c. c \<noteq> CHR ''/'' \<and> c \<noteq> CHR 0x5C \<and> \<not> isLineTerminator c) s"
    using assms by (simp add: plainName_def)
  show "list_all (\<lambda>c. c \<noteq> CHR ''/'') s" using a by (rule list_all_weaken) simp
  show lt: "list_all (\<lambda>c. \<not> isLineTerminator c) s" using a by (rule list_all_weaken) simp
  show "CHR 0x0A \<notin> set s"
  proof
    assume "CHR 0x0A \<in> set s"
    then have "\<not> isLineTerminator (CHR 0x0A)" using lt by (simp add: list_all_iff)
    then show False using newline_is_terminator by simp
  qed
qed

lemma plainExtension_parts:
  assumes "plainExtension e"
  shows "list_all (\<lambda>c. c \<noteq> CHR ''/'') e" "list_all (\<lambda>c. c \<noteq> CHR ''.'') e"
        "list_all (\<lambda>c. c \<noteq> CHR ''.'' \<and> c \<noteq> CHR ''/'' \<and> c \<noteq> CHR 0x5C \<and> \<not> isLineTerminator c) e"
proof -
  show a: "list_all (\<lambda>c. c \<noteq> CHR ''.'' \<and> c \<noteq> CHR ''/'' \<and> c \<noteq> CHR 0x5C \<and> \<not> isLineTerminator c) e"
    using assms by (simp add: plainExtension_def)
  show "list_all (\<lambda>c. c \<noteq> CHR ''/'') e" using a by (rule list_all_weaken) simp
  show "list_all (\<lambda>c. c \<noteq> CHR ''.'') e" using a by (rule list_all_weaken) simp
qed

lemma subject_no_newline:
  assumes "CHR 0x0A \<notin> set (serviceId r)" "CHR 0x0A \<notin> set (termsType r)"
  shows "CHR 0x0A \<notin> set (subjectOf r)"
  using assms
  by (simp add: subjectOf_def COMMIT_MESSAGE_PREFIX_startTracking_def
      COMMIT_MESSAGE_PREFIX_extractOnly_def COMMIT_MESSAGE_PREFIX_update_def)

text \<open>The stem of the file name: the terms type, and the document id after the separator.\<close>

lemma stem_plain:
  assumes "plainName t" "case d of None \<Rightarrow> True | Some x \<Rightarrow> plainName x"
  shows "t @ ifTruthy d (\<lambda>x. '' #'' @ x) [] \<noteq> []"
    and "list_all (\<lambda>c. c \<noteq> CHR ''/'' \<and> c \<noteq> CHR 0x5C \<and> \<not> isLineTerminator c)
           (t @ ifTruthy d (\<lambda>x. '' #'' @ x) [])"
proof -
  show "t @ ifTruthy d (\<lambda>x. '' #'' @ x) [] \<noteq> []" using plainName_parts(1)[OF assms(1)] by simp
  have sep: "\<not> isLineTerminator CHR '' ''" "\<not> isLineTerminator CHR ''#''"
    by (simp_all add: isLineTerminator_def)
  show "list_all (\<lambda>c. c \<noteq> CHR ''/'' \<and> c \<noteq> CHR 0x5C \<and> \<not> isLineTerminator c)
           (t @ ifTruthy d (\<lambda>x. '' #'' @ x) [])"
  proof (cases d)
    case None
    then show ?thesis using plainName_parts(4)[OF assms(1)] by (simp add: ifTruthy_def)
  next
    case (Some x)
    then have "plainName x" using assms(2) by simp
    from plainName_parts(4)[OF this] plainName_parts(4)[OF assms(1)] sep
    show ?thesis using Some by (simp add: ifTruthy_def)
  qed
qed

lemma stem_split:
  assumes "\<not> jsIncludes t '' #''"
      and "case d of None \<Rightarrow> True | Some x \<Rightarrow> x \<noteq> [] \<and> \<not> jsIncludes x '' #''"
  shows "jsSplit (t @ ifTruthy d (\<lambda>x. '' #'' @ x) []) '' #''
           = (case d of None \<Rightarrow> [t] | Some x \<Rightarrow> [t, x])"
proof (cases d)
  case None
  then show ?thesis
    using splitOn_no_separator[OF assms(1), of "[]"] by (simp add: jsSplit_def ifTruthy_def)
next
  case (Some x)
  then have x: "x \<noteq> []" "\<not> jsIncludes x '' #''" using assms(2) by simp_all
  have "splitOn '' #'' [] (t @ '' #'' @ x) = t # splitOn '' #'' [] x"
    using splitOn_at_separator[OF assms(1), of "[]" x] by simp
  also have "splitOn '' #'' [] x = [x]"
    using splitOn_no_separator[OF x(2), of "[]"] by simp
  finally show ?thesis using Some x(1) by (simp add: jsSplit_def ifTruthy_def)
qed

lemma codec_roundtrip:
  assumes v: "validRecord m template r"
  shows "\<exists>d. toDomain m (commitOf h dt (toPersistence m r template)) = Inr d
          \<and> serviceId d = serviceId r \<and> termsType d = termsType r
          \<and> documentId d = documentId r \<and> mimeType d = mimeType r
          \<and> isFirstRecord d = isFirstRecord r
          \<and> isExtractOnly d = (isExtractOnly r \<and> \<not> isFirstRecord r)
          \<and> snapshotIds d = snapshotIds r"
proof -
  from v obtain t e where mt: "mimeType r = Some t" and ge: "getExtension m (Some t) = Some e"
      and pe: "plainExtension e" and ty: "mime_types m (toLowerCase e) = Some t"
    by (auto simp add: validRecord_def mimeRoundTrips_def split: option.splits)
  from getExtension_Some[OF ge] have ene: "e \<noteq> []" and tne: "t \<noteq> []" by simp_all
  from v have ps: "plainName (serviceId r)" and pt: "plainName (termsType r)"
      and nt: "\<not> jsIncludes (termsType r) '' #''"
    by (simp_all add: validRecord_def TERMS_TYPE_AND_DOCUMENT_ID_SEPARATOR_def)
  from v have pd: "case documentId r of None \<Rightarrow> True | Some x \<Rightarrow> plainName x"
      and nd: "case documentId r of None \<Rightarrow> True | Some x \<Rightarrow> x \<noteq> [] \<and> \<not> jsIncludes x '' #''"
    by (simp_all add: validRecord_def TERMS_TYPE_AND_DOCUMENT_ID_SEPARATOR_def plainName_def
        split: option.splits)
  define stem where "stem = termsType r @ ifTruthy (documentId r) (\<lambda>x. '' #'' @ x) []"
  define path where "path = serviceId r @ CHR ''/'' # stem @ CHR ''.'' # e"
  define body0 where "body0 = documentIdMessageOf r @ NL @ NL
            @ (case snapshotIdsMessageOf r template of None \<Rightarrow> [] | Some msg \<Rightarrow> msg)"
  have stem_ne: "stem \<noteq> []"
    unfolding stem_def using pt pd by (rule stem_plain(1))
  have stem_ok: "list_all (\<lambda>c. c \<noteq> CHR ''/'' \<and> c \<noteq> CHR 0x5C \<and> \<not> isLineTerminator c) stem"
    unfolding stem_def using pt pd by (rule stem_plain(2))
  have stem_slash: "list_all (\<lambda>c. c \<noteq> CHR ''/'') stem"
    using stem_ok by (rule list_all_weaken) simp
  have fp: "filePath (toPersistence m r template) = path"
    by (simp add: toPersistence_def generateFilePath_def generateFileName_def ge mt stem_def
        path_def TERMS_TYPE_AND_DOCUMENT_ID_SEPARATOR_def)
  have msg: "persistedMessage (toPersistence m r template) = subjectOf r @ NL @ NL @ body0"
    by (simp add: toPersistence_def body0_def)
  have nonl: "CHR 0x0A \<notin> set (subjectOf r)"
    using plainName_parts(5)[OF ps] plainName_parts(5)[OF pt] by (rule subject_no_newline)
  have commit: "commitOf h dt (toPersistence m r template)
                  = \<lparr>hash = h, date = dt, message = subjectOf r, body = body0, files = [path]\<rparr>"
    unfolding commitOf_def msg splitAtFirst_blank_line[OF nonl] fp by simp
  have name_ne: "stem @ CHR ''.'' # e \<noteq> []" by simp
  have name_slash: "list_all (\<lambda>c. c \<noteq> CHR ''/'') (stem @ CHR ''.'' # e)"
    using stem_slash plainExtension_parts(1)[OF pe] by simp
  have dir: "dirname path = serviceId r"
    unfolding path_def
    using name_ne name_slash plainName_parts(1)[OF ps] plainName_parts(2)[OF ps]
    by (rule dirname_path)
  have ext: "extname path = CHR ''.'' # e"
    unfolding path_def
    using stem_ne stem_slash ene plainExtension_parts(1)[OF pe] plainExtension_parts(2)[OF pe]
    by (rule extname_path)
  have base: "basename path (CHR ''.'' # e) = stem"
    unfolding path_def
    using stem_ne stem_slash plainExtension_parts(1)[OF pe] by (rule basename_path)
  have parts: "jsSplit (basename path (extname path)) TERMS_TYPE_AND_DOCUMENT_ID_SEPARATOR
                 = (case documentId r of None \<Rightarrow> [termsType r] | Some x \<Rightarrow> [termsType r, x])"
    unfolding ext base stem_def TERMS_TYPE_AND_DOCUMENT_ID_SEPARATOR_def
    using nt nd by (rule stem_split)
  have type: "getType m path = Some t"
    unfolding path_def
    using getType_path[OF stem_ne plainName_parts(3)[OF ps] stem_ok plainExtension_parts(3)[OF pe], of m]
      ty tne by simp
  have ids: "matchSnapshotIds body0 = snapshotIds r"
    unfolding body0_def using v by (rule tokens_body)
  let ?d = "\<lparr>recordId = Some h, serviceId = serviceId r, termsType = termsType r,
             documentId = documentId r, mimeType = Some t, fetchDate = dt,
             isFirstRecord = isFirstRecord r,
             isExtractOnly = (isExtractOnly r \<and> \<not> isFirstRecord r),
             snapshotIds = snapshotIds r, content = None\<rparr>"
  have "toDomain m (commitOf h dt (toPersistence m r template)) = Inr ?d"
    unfolding commit
    by (cases "documentId r") (simp_all add: toDomain_def Let_def dir parts type ids decode_flags)
  then show ?thesis using mt by simp
qed

lemma sampleTemplate_ok: "templateOK sampleTemplate"
  by (simp add: templateOK_def sampleTemplate_def SNAPSHOT_ID_MARKER_def matchSnapshotIds_def scan)

lemma sample_ids: "isSnapshotId ''abc12''" "isSnapshotId ''de34f''"
  by (simp_all add: isSnapshotId_def isHexChar_def)

lemma markdown_roundTrips: "mimeRoundTrips (defineMarkdown base) ''text/markdown''"
  by (simp add: mimeRoundTrips_def getExtension_def defineMarkdown_def isSpace_def
      toLowerCase_def toLowerChar_def plainExtension_def isLineTerminator_def)

lemma html_roundTrips: "mimeRoundTrips sampleMime ''text/html''"
  by (simp add: mimeRoundTrips_def getExtension_def sampleMime_def sampleMimeBase_def
      defineMarkdown_def isSpace_def
      toLowerCase_def toLowerChar_def plainExtension_def isLineTerminator_def)

lemma sample_names:
  "plainName ''service''" "plainName ''Terms of Service''" "plainName ''main''"
  "\<not> jsIncludes ''Terms of Service'' '' #''" "\<not> jsIncludes ''main'' '' #''"
  "matchSnapshotIds ''main'' = []"
  by (simp_all add: plainName_def isLineTerminator_def jsIncludes_def matchSnapshotIds_def scan)

lemma sampleVersion_valid: "validRecord sampleMime sampleTemplate sampleVersion"
  by (simp add: validRecord_def sampleVersion_def sampleMime_def sample_names
      TERMS_TYPE_AND_DOCUMENT_ID_SEPARATOR_def markdown_roundTrips sample_ids sampleTemplate_ok)

lemma firstExtractOnlyVersion_valid: "validRecord sampleMime sampleTemplate firstExtractOnlyVersion"
  by (simp add: validRecord_def firstExtractOnlyVersion_def sampleVersion_def sampleMime_def
      sample_names TERMS_TYPE_AND_DOCUMENT_ID_SEPARATOR_def markdown_roundTrips sample_ids
      sampleTemplate_ok)

lemma sampleSnapshot_valid: "validRecord sampleMime sampleTemplate sampleSnapshot"
  by (simp add: validRecord_def sampleSnapshot_def sample_names
      TERMS_TYPE_AND_DOCUMENT_ID_SEPARATOR_def html_roundTrips)

text \<open>
  C1 (as stated, refuted). A valid Record that is both a first record and extract-only
  is encoded with the first-record prefix, so decoding gives \<^verbatim>\<open>isExtractOnly\<close>
  false.
\<close>

theorem extract_only_flag_lost_on_first_record:
  "validRecord sampleMime sampleTemplate firstExtractOnlyVersion
   \<and> isExtractOnly firstExtractOnlyVersion
   \<and> map_sum id isExtractOnly
        (toDomain sampleMime
           (commitOf ''0a1b2c3'' ''2023-01-01T00:00:00.000Z''
              (toPersistence sampleMime firstExtractOnlyVersion sampleTemplate)))
       = Inr False"
proof -
  from codec_roundtrip[OF firstExtractOnlyVersion_valid, of "''0a1b2c3''" "''2023-01-01T00:00:00.000Z''"]
  obtain d where
    d: "toDomain sampleMime
           (commitOf ''0a1b2c3'' ''2023-01-01T00:00:00.000Z''
              (toPersistence sampleMime firstExtractOnlyVersion sampleTemplate)) = Inr d"
    and e: "isExtractOnly d = (isExtractOnly firstExtractOnlyVersion \<and> \<not> isFirstRecord firstExtractOnlyVersion)"
    by blast
  have f: "isFirstRecord firstExtractOnlyVersion" "isExtractOnly firstExtractOnlyVersion"
    by (simp_all add: firstExtractOnlyVersion_def sampleVersion_def)
  show ?thesis using firstExtractOnlyVersion_valid d e f by simp
qed

text \<open>
  C1 (amended). For every valid Record, decoding the commit that carries the encoded
  message (its first paragraph as subject, the rest as body) and the encoded file path
  as its single modified file gives a Record with the same service id, terms type,
  document id, mime type and first-record flag and the same set of snapshot ids;
  its extract-only flag is that of the Record when the Record is not a first record,
  and false when it is.
\<close>

theorem decode_encode:
  assumes "validRecord m template r"
  shows "\<exists>d. toDomain m (commitOf commitHash commitDate (toPersistence m r template)) = Inr d
          \<and> serviceId d = serviceId r \<and> termsType d = termsType r
          \<and> documentId d = documentId r \<and> mimeType d = mimeType r
          \<and> isFirstRecord d = isFirstRecord r
          \<and> isExtractOnly d = (isExtractOnly r \<and> \<not> isFirstRecord r)
          \<and> set (snapshotIds d) = set (snapshotIds r)"
  using codec_roundtrip[OF assms, of commitHash commitDate] by auto

theorem decode_encode_witness:
  "(\<exists>d. toDomain sampleMime
           (commitOf ''0a1b2c3'' ''2023-01-01T00:00:00.000Z''
              (toPersistence sampleMime sampleVersion sampleTemplate)) = Inr d
        \<and> serviceId d = ''service'' \<and> termsType d = ''Terms of Service''
        \<and> documentId d = None \<and> mimeType d = Some ''text/markdown''
        \<and> isFirstRecord d = False \<and> isExtractOnly d = True
        \<and> set (snapshotIds d) = {''abc12'', ''de34f''})
   \<and> (\<exists>d. toDomain sampleMime
           (commitOf ''0a1b2c3'' ''2023-01-01T00:00:00.000Z''
              (toPersistence sampleMime sampleSnapshot sampleTemplate)) = Inr d
        \<and> serviceId d = ''service'' \<and> termsType d = ''Terms of Service''
        \<and> documentId d = Some ''main'' \<and> mimeType d = Some ''text/html''
        \<and> isFirstRecord d = True \<and> isExtractOnly d = False
        \<and> set (snapshotIds d) = {})"
proof -
  have v: "sampleVersion = \<lparr>recordId = None, serviceId = ''service'', termsType = ''Terms of Service'',
      documentId = None, mimeType = Some ''text/markdown'',
      fetchDate = ''2023-01-01T00:00:00.000Z'', isFirstRecord = False, isExtractOnly = True,
      snapshotIds = [''abc12'', ''de34f''], content = Some ''foo''\<rparr>"
    by (simp add: sampleVersion_def)
  have s: "sampleSnapshot = \<lparr>recordId = None, serviceId = ''service'', termsType = ''Terms of Service'',
      documentId = Some ''main'', mimeType = Some ''text/html'',
      fetchDate = ''2023-01-01T00:00:00.000Z'', isFirstRecord = True, isExtractOnly = False,
      snapshotIds = [], content = Some ''<p>foo</p>''\<rparr>"
    by (simp add: sampleSnapshot_def)
  from decode_encode[OF sampleVersion_valid, of "''0a1b2c3''" "''2023-01-01T00:00:00.000Z''"]
  have 1: "\<exists>d. toDomain sampleMime
           (commitOf ''0a1b2c3'' ''2023-01-01T00:00:00.000Z''
              (toPersistence sampleMime sampleVersion sampleTemplate)) = Inr d
        \<and> serviceId d = ''service'' \<and> termsType d = ''Terms of Service''
        \<and> documentId d = None \<and> mimeType d = Some ''text/markdown''
        \<and> isFirstRecord d = False \<and> isExtractOnly d = True
        \<and> set (snapshotIds d) = {''abc12'', ''de34f''}"
    unfolding v[symmetric] by (simp add: sampleVersion_def)
  from decode_encode[OF sampleSnapshot_valid, of "''0a1b2c3''" "''2023-01-01T00:00:00.000Z''"]
  have 2: "\<exists>d. toDomain sampleMime
           (commitOf ''0a1b2c3'' ''2023-01-01T00:00:00.000Z''
              (toPersistence sampleMime sampleSnapshot sampleTemplate)) = Inr d
        \<and> serviceId d = ''service'' \<and> termsType d = ''Terms of Service''
        \<and> documentId d = Some ''main'' \<and> mimeType d = Some ''text/html''
        \<and> isFirstRecord d = True \<and> isExtractOnly d = False
        \<and> set (snapshotIds d) = {}"
    by (simp add: sampleSnapshot_def)
  show ?thesis using 1 2 by blast
qed

end
